theory Spec2Isabelle
  imports Main "HOL-Library.Sublist"
begin

section \<open>Domain-wide delegation credentials (packages/lib/domainWideDelegation/server.ts)\<close>

subsection \<open>JavaScript truthiness of the values the guards test\<close>

text \<open>
  The source tests identifiers with \<^verbatim>\<open>!x\<close> and \<^verbatim>\<open>x ? a : b\<close>. A value of type
  \<^verbatim>\<open>string | null | undefined\<close> is modelled as a \<open>string option\<close> (\<open>None\<close> for null and
  undefined) and is truthy when it is a non-empty string; a value of type
  \<^verbatim>\<open>number | null | undefined\<close> is an \<open>int option\<close> and is truthy when it is a non-zero
  number.
\<close>

fun truthy_string :: "string option \<Rightarrow> bool" where
  "truthy_string None = False"
| "truthy_string (Some s) = (s \<noteq> [])"

fun truthy_number :: "int option \<Rightarrow> bool" where
  "truthy_number None = False"
| "truthy_number (Some n) = (n \<noteq> 0)"

subsection \<open>Data\<close>

text \<open>The service-account key is an opaque JSON object; only its presence matters here.\<close>

type_synonym ServiceAccountKey = string

record DomainWideDelegation =
  dwd_id :: string
  workspacePlatform_slug :: string
  serviceAccountKey :: "ServiceAccountKey option"
  enabled :: bool

record User =
  email :: string
  user_id :: int

text \<open>
  The fields \<^verbatim>\<open>buildCommonUserCredential\<close> returns; \<open>user_email\<close> is \<^verbatim>\<open>user.email\<close>,
  \<open>key\<close> the \<^verbatim>\<open>access_token\<close> of the key object (an opaque text for a stored credential),
  \<open>delegatedTo\<close> the service-account key of \<^verbatim>\<open>delegatedTo\<close>.
\<close>

record CommonUserCredential =
  cred_id :: int
  delegatedToId :: "string option"
  cred_userId :: "int option"
  user_email :: "string option"
  key :: string
  invalid :: "bool option"
  cred_teamId :: "int option"
  team :: "string option"
  delegatedTo :: "ServiceAccountKey option"

record credential = CommonUserCredential +
  cred_type :: string
  appId :: "string option"

text \<open>
  The app metadata imported from the app store (\<^verbatim>\<open>googleCalendarMetadata\<close>,
  \<^verbatim>\<open>googleMeetMetadata\<close>) is not part of these sources: the builders take it as a parameter.
\<close>

record AppMetadata =
  md_type :: string
  md_slug :: string

subsection \<open>Credential builder\<close>

text \<open>
  The source's private functions are named with a leading underscore
  (\<^verbatim>\<open>_buildDwdCredentials\<close>); a name cannot start with one here, so it is dropped.
  \<^verbatim>\<open>endsWith\<close> is \<open>suffix\<close>. \<open>withTypeAndAppId\<close> is the object literal
  \<^verbatim>\<open>{ type, appId, ..._buildCommonUserCredential({ dwd, user }) }\<close>: the common fields with the
  app's type and slug added.
\<close>

definition isConferencingCredential :: "credential \<Rightarrow> bool" where
  "isConferencingCredential credential =
     (suffix ''_video'' (cred_type credential) \<or>
      suffix ''_conferencing'' (cred_type credential) \<or>
      suffix ''_messaging'' (cred_type credential))"

definition isCalendarCredential :: "credential \<Rightarrow> bool" where
  "isCalendarCredential credential = suffix ''_calendar'' (cred_type credential)"

definition buildCommonUserCredential :: "DomainWideDelegation \<Rightarrow> 'a User_scheme \<Rightarrow> CommonUserCredential" where
  "buildCommonUserCredential dwd user =
     \<lparr> cred_id = -1,
       delegatedToId = Some (dwd_id dwd),
       cred_userId = Some (user_id user),
       user_email = Some (email user),
       key = ''NOOP_UNUSED_DELEGATION_TOKEN'',
       invalid = Some False,
       cred_teamId = None,
       team = None,
       delegatedTo = (case serviceAccountKey dwd of Some k \<Rightarrow> Some k | None \<Rightarrow> None) \<rparr>"

definition withTypeAndAppId :: "string \<Rightarrow> string \<Rightarrow> CommonUserCredential \<Rightarrow> credential" where
  "withTypeAndAppId t a c =
     \<lparr> cred_id = cred_id c, delegatedToId = delegatedToId c, cred_userId = cred_userId c,
       user_email = user_email c, key = key c, invalid = invalid c, cred_teamId = cred_teamId c,
       team = team c, delegatedTo = delegatedTo c, cred_type = t, appId = Some a \<rparr>"

definition buildDwdCalendarCredential ::
    "AppMetadata \<Rightarrow> DomainWideDelegation \<Rightarrow> 'a User_scheme \<Rightarrow> credential option" where
  "buildDwdCalendarCredential googleCalendarMetadata dwd user =
     (if workspacePlatform_slug dwd \<noteq> ''google'' then None
      else Some (withTypeAndAppId (md_type googleCalendarMetadata) (md_slug googleCalendarMetadata)
                  (buildCommonUserCredential dwd user)))"

definition buildDwdConferencingCredential ::
    "AppMetadata \<Rightarrow> DomainWideDelegation \<Rightarrow> 'a User_scheme \<Rightarrow> credential option" where
  "buildDwdConferencingCredential googleMeetMetadata dwd user =
     (if workspacePlatform_slug dwd \<noteq> ''google'' then None
      else Some (withTypeAndAppId (md_type googleMeetMetadata) (md_slug googleMeetMetadata)
                  (buildCommonUserCredential dwd user)))"

definition buildDwdCredentials ::
    "AppMetadata \<Rightarrow> AppMetadata \<Rightarrow> DomainWideDelegation option \<Rightarrow> 'a User_scheme \<Rightarrow> credential list" where
  "buildDwdCredentials googleCalendarMetadata googleMeetMetadata dwd user =
     (case dwd of
        None \<Rightarrow> []
      | Some d \<Rightarrow>
          if \<not> enabled d then []
          else List.map_filter (\<lambda>credential. credential)
                 [buildDwdCalendarCredential googleCalendarMetadata d user,
                  buildDwdConferencingCredential googleMeetMetadata d user])"

subsection \<open>Credential merger\<close>

text \<open>
  \<^verbatim>\<open>isDwdCredential\<close> and \<^verbatim>\<open>buildNonDwdCredentials\<close> are imported from
  \<^verbatim>\<open>./clientAndServer\<close>, which is not part of these sources: \<open>buildAllCredentials\<close> takes both
  as parameters. The callback of \<^verbatim>\<open>reduce\<close> is \<open>uniqueAllCredentials_step\<close>; \<^verbatim>\<open>acc.push\<close>
  appends.
\<close>

definition sameDwdCredential :: "credential \<Rightarrow> credential \<Rightarrow> bool" where
  "sameDwdCredential credential c =
     (delegatedToId c = delegatedToId credential \<and> appId c = appId credential)"

definition uniqueAllCredentials_step :: "credential list \<Rightarrow> credential \<Rightarrow> credential list" where
  "uniqueAllCredentials_step acc credential =
     (if \<not> truthy_string (delegatedToId credential) then acc @ [credential]
      else (case find (sameDwdCredential credential) acc of
              None \<Rightarrow> acc @ [credential]
            | Some existingDwdCredential \<Rightarrow> acc))"

definition buildAllCredentials ::
    "(int \<Rightarrow> bool) \<Rightarrow> (credential list \<Rightarrow> credential list) \<Rightarrow>
     credential list \<Rightarrow> credential list \<Rightarrow> credential list" where
  "buildAllCredentials isDwdCredential buildNonDwdCredentials dwdCredentials existingCredentials =
     (let nonDwdCredentials = filter (\<lambda>cred. \<not> isDwdCredential (cred_id cred)) existingCredentials;
          allCredentials = dwdCredentials @ buildNonDwdCredentials nonDwdCredentials
      in foldl uniqueAllCredentials_step [] allCredentials)"

text \<open>
  The two notions the merger's results are stated with: a credential has a delegation
  back-reference when the source's test \<^verbatim>\<open>!credential.delegatedToId\<close> fails (a non-empty
  string), and the pair the \<^verbatim>\<open>find\<close> callback compares.
\<close>

definition hasDelegation :: "credential \<Rightarrow> bool" where
  "hasDelegation c = truthy_string (delegatedToId c)"

definition dwdKey :: "credential \<Rightarrow> string option \<times> string option" where
  "dwdKey c = (delegatedToId c, appId c)"

subsection \<open>Errors and JavaScript's two absent values\<close>

text \<open>
  \<open>TypeError\<close> is the runtime's exception for reading a property of \<^verbatim>\<open>undefined\<close>;
  \<open>InvalidCSRFError\<close> and \<open>HttpError\<close> are the classes the sources throw; \<open>NotFoundError\<close>
  is what \<^verbatim>\<open>findFirstOrThrow\<close> throws when no row matches.
\<close>

datatype error =
    TypeError
  | InvalidCSRFError
  | HttpError int string
  | NotFoundError

fun statusCode :: "error \<Rightarrow> int option" where
  "statusCode InvalidCSRFError = Some 403"
| "statusCode (HttpError code message) = Some code"
| "statusCode TypeError = None"
| "statusCode NotFoundError = None"

datatype 'a nullable = Undefined | Null | Value 'a

subsection \<open>Batch delegation resolver\<close>

text \<open>\<^verbatim>\<open>str.split(sep)\<close> for a one-character separator, and \<^verbatim>\<open>array[1]\<close>.\<close>

fun split :: "char \<Rightarrow> string \<Rightarrow> string list" where
  "split sep [] = [[]]"
| "split sep (c # cs) =
     (if c = sep then [] # split sep cs
      else (case split sep cs of
              [] \<Rightarrow> [[c]]
            | w # ws \<Rightarrow> (c # w) # ws))"

fun index1 :: "'a list \<Rightarrow> 'a option" where
  "index1 (x # y # ys) = Some y"
| "index1 ys = None"

text \<open>
  The repository call \<^verbatim>\<open>findUniqueByOrganizationIdAndDomainIncludeSensitiveServiceAccountKey\<close>
  is the parameter \<open>findDwd\<close>; the domain it receives is \<^verbatim>\<open>undefined\<close> (\<open>None\<close>) when the
  first user's email has no \<^verbatim>\<open>@\<close>. \<^verbatim>\<open>users[0].email\<close> on an empty array reads a property
  of \<^verbatim>\<open>undefined\<close>: the promise is rejected with a \<open>TypeError\<close>. The \<^verbatim>\<open>Map\<close> is a map from
  user ids; \<^verbatim>\<open>set\<close> overwrites.
\<close>

definition getDwdCredentialsMapPerUser ::
    "AppMetadata \<Rightarrow> AppMetadata \<Rightarrow> (int \<Rightarrow> string option \<Rightarrow> DomainWideDelegation option) \<Rightarrow>
     int option \<Rightarrow> 'a User_scheme list \<Rightarrow> error + (int \<rightharpoonup> credential list)" where
  "getDwdCredentialsMapPerUser googleCalendarMetadata googleMeetMetadata findDwd organizationId users =
     (case organizationId of
        None \<Rightarrow> Inr Map.empty
      | Some orgId \<Rightarrow>
          if orgId = 0 then Inr Map.empty
          else (case users of
                  [] \<Rightarrow> Inl TypeError
                | user0 # rest \<Rightarrow>
                    let domain = index1 (split CHR ''@'' (email user0));
                        dwd = findDwd orgId domain
                    in (case dwd of
                          None \<Rightarrow> Inr Map.empty
                        | Some d \<Rightarrow>
                            if \<not> enabled d then Inr Map.empty
                            else Inr (foldl (\<lambda>credentialsByUserId user.
                                        credentialsByUserId(user_id user \<mapsto>
                                          buildDwdCredentials googleCalendarMetadata googleMeetMetadata
                                            (Some d) user))
                                      Map.empty users))))"

subsection \<open>Credential lookup utilities\<close>

text \<open>
  \<^verbatim>\<open>CredentialRepository.findCredentialForCalendarServiceById\<close> is the parameter \<open>findById\<close>
  (\<open>None\<close> is its \<^verbatim>\<open>null\<close>). \<^verbatim>\<open>Array.find\<close> gives \<^verbatim>\<open>undefined\<close> when nothing matches.
\<close>

definition getDwdOrFindRegularCredential ::
    "(int \<Rightarrow> credential option) \<Rightarrow> int option \<Rightarrow> string option \<Rightarrow> credential list \<Rightarrow>
     credential nullable" where
  "getDwdOrFindRegularCredential findById credentialId domainWideDelegationCredentialId dwdCredentials =
     (if truthy_string domainWideDelegationCredentialId
      then (case find (\<lambda>cred. delegatedToId cred = domainWideDelegationCredentialId) dwdCredentials of
              None \<Rightarrow> Undefined
            | Some cred \<Rightarrow> Value cred)
      else (case credentialId of
              None \<Rightarrow> Null
            | Some n \<Rightarrow>
                if n = 0 then Null
                else (case findById n of None \<Rightarrow> Null | Some cred \<Rightarrow> Value cred)))"

text \<open>The result of \<^verbatim>\<open>find(...) || null\<close>: \<open>None\<close> is \<^verbatim>\<open>null\<close>.\<close>

definition getDwdOrRegularCredential ::
    "'a CommonUserCredential_scheme list \<Rightarrow> int option \<Rightarrow> string option \<Rightarrow>
     'a CommonUserCredential_scheme option" where
  "getDwdOrRegularCredential credentialList credentialId dwdId =
     find (\<lambda>cred.
             if truthy_string (delegatedToId cred) then delegatedToId cred = dwdId
             else if truthy_number credentialId then Some (cred_id cred) = credentialId
             else False)
          credentialList"

subsection \<open>User and host enrichment\<close>

text \<open>
  The records of a batch are objects of a store, a list whose positions are the references.
  A user object has the fields of \<open>User\<close>, its \<open>credentials\<close> and whatever else the caller's
  type carries (the record's extension); a host object holds the reference of its user object
  and whatever else the caller's type carries. An object literal of the source allocates:
  \<open>alloc\<close> appends the new object and returns its reference. Nothing in the two functions
  assigns to a field of an object, so the model has no operation that writes an existing
  position. Reading a reference that is not an object of the expected kind cannot happen in
  the typed source; the model gives \<open>None\<close> for it and the functions fail on it.
\<close>

record TUser = User +
  credentials :: "credential list"

record Host =
  host_user :: nat

datatype ('u, 'h) object =
    UserObject "'u TUser_scheme"
  | HostObject "'h Host_scheme"

definition alloc :: "('u, 'h) object list \<Rightarrow> ('u, 'h) object \<Rightarrow> ('u, 'h) object list \<times> nat" where
  "alloc store obj = (store @ [obj], length store)"

definition readUser :: "('u, 'h) object list \<Rightarrow> nat \<Rightarrow> 'u TUser_scheme option" where
  "readUser store r =
     (if r < length store
      then (case store ! r of UserObject u \<Rightarrow> Some u | HostObject h \<Rightarrow> None)
      else None)"

definition readHost :: "('u, 'h) object list \<Rightarrow> nat \<Rightarrow> 'h Host_scheme option" where
  "readHost store r =
     (if r < length store
      then (case store ! r of UserObject u \<Rightarrow> None | HostObject h \<Rightarrow> Some h)
      else None)"

fun readUsers :: "('u, 'h) object list \<Rightarrow> nat list \<Rightarrow> 'u TUser_scheme list option" where
  "readUsers store [] = Some []"
| "readUsers store (r # rs) =
     (case readUser store r of
        None \<Rightarrow> None
      | Some u \<Rightarrow> (case readUsers store rs of None \<Rightarrow> None | Some us \<Rightarrow> Some (u # us)))"

text \<open>\<^verbatim>\<open>hosts.map((host) => host.user)\<close>: the user objects of the hosts.\<close>

fun readHostUsers :: "('u, 'h) object list \<Rightarrow> nat list \<Rightarrow> 'u TUser_scheme list option" where
  "readHostUsers store [] = Some []"
| "readHostUsers store (r # rs) =
     (case readHost store r of
        None \<Rightarrow> None
      | Some host \<Rightarrow>
          (case readUser store (host_user host) of
             None \<Rightarrow> None
           | Some u \<Rightarrow>
               (case readHostUsers store rs of None \<Rightarrow> None | Some us \<Rightarrow> Some (u # us))))"

text \<open>The value the callback of \<^verbatim>\<open>users.map\<close> builds: \<^verbatim>\<open>{ ...rest, credentials }\<close> with
  \<^verbatim>\<open>dwdCredentialsMap.get(user.id) ?? []\<close> merged into the user's credentials.\<close>

definition enrichUser ::
    "(int \<Rightarrow> bool) \<Rightarrow> (credential list \<Rightarrow> credential list) \<Rightarrow> (int \<rightharpoonup> credential list) \<Rightarrow>
     'u TUser_scheme \<Rightarrow> 'u TUser_scheme" where
  "enrichUser isDwdCredential buildNonDwdCredentials dwdCredentialsMap user =
     user\<lparr> credentials :=
       buildAllCredentials isDwdCredential buildNonDwdCredentials
         (case dwdCredentialsMap (user_id user) of None \<Rightarrow> [] | Some dwdCredentials \<Rightarrow> dwdCredentials)
         (credentials user) \<rparr>"

fun mapUsers ::
    "('u TUser_scheme \<Rightarrow> 'u TUser_scheme) \<Rightarrow> nat list \<Rightarrow> ('u, 'h) object list \<Rightarrow>
     (nat list \<times> ('u, 'h) object list) option" where
  "mapUsers f [] store = Some ([], store)"
| "mapUsers f (r # rs) store =
     (case readUser store r of
        None \<Rightarrow> None
      | Some user \<Rightarrow>
          (case alloc store (UserObject (f user)) of
             (store1, enrichedUser) \<Rightarrow>
               (case mapUsers f rs store1 of
                  None \<Rightarrow> None
                | Some (enrichedUsers, store2) \<Rightarrow> Some (enrichedUser # enrichedUsers, store2))))"

text \<open>\<^verbatim>\<open>{ ...host, user: { ...restUser, credentials } }\<close>: a new user object and a new host
  object that refers to it.\<close>

fun mapHosts ::
    "('u TUser_scheme \<Rightarrow> 'u TUser_scheme) \<Rightarrow> nat list \<Rightarrow> ('u, 'h) object list \<Rightarrow>
     (nat list \<times> ('u, 'h) object list) option" where
  "mapHosts f [] store = Some ([], store)"
| "mapHosts f (r # rs) store =
     (case readHost store r of
        None \<Rightarrow> None
      | Some host \<Rightarrow>
          (case readUser store (host_user host) of
             None \<Rightarrow> None
           | Some user \<Rightarrow>
               (case alloc store (UserObject (f user)) of
                  (store1, enrichedUser) \<Rightarrow>
                    (case alloc store1 (HostObject (host\<lparr> host_user := enrichedUser \<rparr>)) of
                       (store2, enrichedHost) \<Rightarrow>
                         (case mapHosts f rs store2 of
                            None \<Rightarrow> None
                          | Some (enrichedHosts, store3) \<Rightarrow>
                              Some (enrichedHost # enrichedHosts, store3))))))"

definition enrichUsersWithDwdCredentials ::
    "AppMetadata \<Rightarrow> AppMetadata \<Rightarrow> (int \<Rightarrow> string option \<Rightarrow> DomainWideDelegation option) \<Rightarrow>
     (int \<Rightarrow> bool) \<Rightarrow> (credential list \<Rightarrow> credential list) \<Rightarrow>
     int option \<Rightarrow> nat list \<Rightarrow> ('u, 'h) object list \<Rightarrow>
     error + (nat list \<times> ('u, 'h) object list)" where
  "enrichUsersWithDwdCredentials googleCalendarMetadata googleMeetMetadata findDwd
       isDwdCredential buildNonDwdCredentials orgId users store =
     (case readUsers store users of
        None \<Rightarrow> Inl TypeError
      | Some userObjects \<Rightarrow>
          (case getDwdCredentialsMapPerUser googleCalendarMetadata googleMeetMetadata findDwd
                  orgId userObjects of
             Inl e \<Rightarrow> Inl e
           | Inr dwdCredentialsMap \<Rightarrow>
               (case mapUsers (enrichUser isDwdCredential buildNonDwdCredentials dwdCredentialsMap)
                       users store of
                  None \<Rightarrow> Inl TypeError
                | Some enriched \<Rightarrow> Inr enriched)))"

definition enrichHostsWithDwdCredentials ::
    "AppMetadata \<Rightarrow> AppMetadata \<Rightarrow> (int \<Rightarrow> string option \<Rightarrow> DomainWideDelegation option) \<Rightarrow>
     (int \<Rightarrow> bool) \<Rightarrow> (credential list \<Rightarrow> credential list) \<Rightarrow>
     int option \<Rightarrow> nat list \<Rightarrow> ('u, 'h) object list \<Rightarrow>
     error + (nat list \<times> ('u, 'h) object list)" where
  "enrichHostsWithDwdCredentials googleCalendarMetadata googleMeetMetadata findDwd
       isDwdCredential buildNonDwdCredentials orgId hosts store =
     (case readHostUsers store hosts of
        None \<Rightarrow> Inl TypeError
      | Some userObjects \<Rightarrow>
          (case getDwdCredentialsMapPerUser googleCalendarMetadata googleMeetMetadata findDwd
                  orgId userObjects of
             Inl e \<Rightarrow> Inl e
           | Inr dwdCredentialsMap \<Rightarrow>
               (case mapHosts (enrichUser isDwdCredential buildNonDwdCredentials dwdCredentialsMap)
                       hosts store of
                  None \<Rightarrow> Inl TypeError
                | Some enriched \<Rightarrow> Inr enriched)))"

section \<open>Slot query normalizer (SlotsInputService_2024_09_04.adjustEndTime)\<close>

text \<open>
  A luxon \<^verbatim>\<open>DateTime\<close> in the zone UTC, by its calendar fields. The library's
  \<^verbatim>\<open>DateTime.fromISO(text, { zone: "utc" })\<close> and \<^verbatim>\<open>toISO()\<close> are the parameters \<open>fromISO\<close>
  and \<open>toISO\<close> of \<open>adjustEndTime\<close>; \<open>fromISO\<close> gives \<open>None\<close> for a text luxon finds invalid,
  whose \<^verbatim>\<open>hour\<close> is \<^verbatim>\<open>NaN\<close> and whose \<^verbatim>\<open>toISO()\<close> is \<^verbatim>\<open>null\<close>. \<^verbatim>\<open>set\<close> replaces the
  three fields; in UTC no other field moves.
\<close>

record DateTime =
  year :: nat
  month :: nat
  day :: nat
  hour :: nat
  minute :: nat
  second :: nat
  millisecond :: nat

definition adjustEndTime ::
    "(string \<Rightarrow> DateTime option) \<Rightarrow> (DateTime \<Rightarrow> string) \<Rightarrow> string \<Rightarrow> string option" where
  "adjustEndTime fromISO toISO endTime =
     (case fromISO endTime of
        None \<Rightarrow> None
      | Some dateTime \<Rightarrow>
          Some (toISO (if hour dateTime = 0 \<and> minute dateTime = 0 \<and> second dateTime = 0
                       then dateTime\<lparr> hour := 23, minute := 59, second := 59 \<rparr>
                       else dateTime)))"

text \<open>
  The two library functions on the form \<^verbatim>\<open>toISO\<close> writes for a UTC time with a four-digit
  year, \<^verbatim>\<open>YYYY-MM-DDTHH:mm:ss.SSSZ\<close>: \<open>toISO_utc\<close> writes it, and \<open>fromISO_utc\<close> reads that
  form and no other, with the month, the day of the month, the hour (up to 23), the minute
  and the second in range. The other forms luxon reads (a date alone, an offset, hour 24,
  week dates) are outside this model.
\<close>

definition digit :: "char \<Rightarrow> nat option" where
  "digit c = (if 48 \<le> (of_char c :: nat) \<and> (of_char c :: nat) \<le> 57
              then Some (of_char c - 48) else None)"

definition digitChar :: "nat \<Rightarrow> char" where
  "digitChar n = char_of (48 + n)"

fun number :: "nat \<Rightarrow> string \<Rightarrow> nat option" where
  "number acc [] = Some acc"
| "number acc (c # cs) =
     (case digit c of None \<Rightarrow> None | Some d \<Rightarrow> number (10 * acc + d) cs)"

fun pad :: "nat \<Rightarrow> nat \<Rightarrow> string" where
  "pad 0 v = []"
| "pad (Suc n) v = pad n (v div 10) @ [digitChar (v mod 10)]"

definition isLeapYear :: "nat \<Rightarrow> bool" where
  "isLeapYear y = (y mod 4 = 0 \<and> (y mod 100 \<noteq> 0 \<or> y mod 400 = 0))"

definition daysInMonth :: "nat \<Rightarrow> nat \<Rightarrow> nat" where
  "daysInMonth y m =
     (if m = 2 then (if isLeapYear y then 29 else 28)
      else if m = 4 \<or> m = 6 \<or> m = 9 \<or> m = 11 then 30 else 31)"

definition fromISO_utc :: "string \<Rightarrow> DateTime option" where
  "fromISO_utc isoText =
     (if length isoText = 24 \<and> isoText ! 4 = CHR ''-'' \<and> isoText ! 7 = CHR ''-'' \<and>
         isoText ! 10 = CHR ''T'' \<and> isoText ! 13 = CHR '':'' \<and> isoText ! 16 = CHR '':'' \<and>
         isoText ! 19 = CHR ''.'' \<and> isoText ! 23 = CHR ''Z''
      then (case (number 0 (take 4 isoText), number 0 (take 2 (drop 5 isoText)),
                  number 0 (take 2 (drop 8 isoText)), number 0 (take 2 (drop 11 isoText)),
                  number 0 (take 2 (drop 14 isoText)), number 0 (take 2 (drop 17 isoText)),
                  number 0 (take 3 (drop 20 isoText))) of
              (Some y, Some mo, Some d, Some h, Some mi, Some s, Some ms) \<Rightarrow>
                if 1 \<le> mo \<and> mo \<le> 12 \<and> 1 \<le> d \<and> d \<le> daysInMonth y mo \<and>
                   h \<le> 23 \<and> mi \<le> 59 \<and> s \<le> 59
                then Some \<lparr> year = y, month = mo, day = d, hour = h, minute = mi,
                            second = s, millisecond = ms \<rparr>
                else None
            | other \<Rightarrow> None)
      else None)"

definition toISO_utc :: "DateTime \<Rightarrow> string" where
  "toISO_utc dateTime =
     pad 4 (year dateTime) @ ''-'' @ pad 2 (month dateTime) @ ''-'' @ pad 2 (day dateTime) @
     ''T'' @ pad 2 (hour dateTime) @ '':'' @ pad 2 (minute dateTime) @ '':'' @
     pad 2 (second dateTime) @ ''.'' @ pad 3 (millisecond dateTime) @ ''Z''"

section \<open>CSRF tokens (RealCSRF)\<close>

text \<open>
  The primitives of the libraries \<^verbatim>\<open>cookie\<close>, \<^verbatim>\<open>cookie-signature\<close> and \<^verbatim>\<open>crypto\<close> are
  parameters: \<open>sha1_base64\<close> is the base64 digest of the SHA-1 of a text, \<open>sign\<close> and \<open>unsign\<close>
  take the value and the signing secret (\<open>unsign\<close> gives \<open>None\<close> for \<^verbatim>\<open>false\<close>), \<open>parse\<close> maps a
  cookie header to its cookies by name. \<^verbatim>\<open>compare\<close> of \<^verbatim>\<open>tsscmp\<close> is equality of the two
  texts; that it runs in constant time is not expressed. \<^verbatim>\<open>serialize(name, value, options)\<close>
  is kept symbolic, as the three values it is called with.
\<close>

record Primitives =
  sha1_base64 :: "string \<Rightarrow> string"
  sign :: "string \<Rightarrow> string \<Rightarrow> string"
  unsign :: "string \<Rightarrow> string \<Rightarrow> string option"
  parse :: "string \<Rightarrow> (string \<rightharpoonup> string)"

record SerializeOptions =
  httpOnly :: bool
  path :: string
  sameSite :: string
  secure :: bool

record Cookie =
  cookie_name :: string
  cookie_value :: string
  cookie_options :: SerializeOptions

definition serialize :: "string \<Rightarrow> string \<Rightarrow> SerializeOptions \<Rightarrow> Cookie" where
  "serialize name val options =
     \<lparr> cookie_name = name, cookie_value = val, cookie_options = options \<rparr>"

text \<open>The instance: \<open>csrf_secret\<close> is the field \<^verbatim>\<open>secret\<close> (\<^verbatim>\<open>NEXTAUTH_SECRET\<close>).\<close>

record RealCSRF =
  cookieOptions :: SerializeOptions
  csrf_secret :: string

definition secretCookieName :: string where
  "secretCookieName = ''csrfSecret''"

definition tokenCookieName :: string where
  "tokenCookieName = ''XSRF-TOKEN''"

definition newRealCSRF :: "string \<Rightarrow> string \<Rightarrow> RealCSRF" where
  "newRealCSRF NEXTAUTH_SECRET NODE_ENV =
     \<lparr> cookieOptions = \<lparr> httpOnly = True, path = ''/'', sameSite = ''lax'',
                         secure = (NODE_ENV = ''production'') \<rparr>,
       csrf_secret = NEXTAUTH_SECRET \<rparr>"

text \<open>\<open>headers_cookie\<close> is \<^verbatim>\<open>req.headers.cookie\<close>, \<open>None\<close> when undefined; \<open>setCookie\<close> is the
  \<^verbatim>\<open>Set-Cookie\<close> header of the response, \<open>None\<close> until \<^verbatim>\<open>setHeader\<close> sets it.\<close>

record IncomingMessage =
  headers_cookie :: "string option"

record ServerResponse =
  setCookie :: "Cookie list option"

definition replaceAll :: "char \<Rightarrow> string \<Rightarrow> string \<Rightarrow> string" where
  "replaceAll c replacement str = concat (map (\<lambda>x. if x = c then replacement else [x]) str)"

definition hash :: "Primitives \<Rightarrow> string \<Rightarrow> string" where
  "hash prims str =
     replaceAll CHR ''='' '''' (replaceAll CHR ''/'' ''_'' (replaceAll CHR ''+'' ''-''
       (sha1_base64 prims str)))"

definition tokenize :: "Primitives \<Rightarrow> string \<Rightarrow> string \<Rightarrow> string" where
  "tokenize prims secret salt = salt @ ''-'' @ hash prims (salt @ ''-'' @ secret)"

definition verifyToken :: "Primitives \<Rightarrow> string \<Rightarrow> string \<Rightarrow> bool" where
  "verifyToken prims secret token =
     (if CHR ''-'' \<notin> set token then False
      else let salt = takeWhile (\<lambda>c. c \<noteq> CHR ''-'') token;
               expected = tokenize prims secret salt
           in token = expected)"

text \<open>\<open>salt\<close> is the text \<^verbatim>\<open>randomBytes(32).toString("hex")\<close> draws.\<close>

definition createToken :: "Primitives \<Rightarrow> string \<Rightarrow> string \<Rightarrow> string" where
  "createToken prims secret salt = tokenize prims secret salt"

definition verify ::
    "Primitives \<Rightarrow> RealCSRF \<Rightarrow> IncomingMessage \<Rightarrow> 'a ServerResponse_scheme \<Rightarrow> string \<Rightarrow>
     error + 'a ServerResponse_scheme" where
  "verify prims this req res salt =
     (case headers_cookie req of
        None \<Rightarrow> Inl InvalidCSRFError
      | Some cookieHeader \<Rightarrow>
          let cookie = parse prims cookieHeader;
              token = cookie tokenCookieName;
              csrfSecret = cookie secretCookieName
          in if \<not> truthy_string token \<or> \<not> truthy_string csrfSecret then Inl InvalidCSRFError
             else (case (token, csrfSecret) of
                     (Some signedToken, Some cookieSecret) \<Rightarrow>
                       (case unsign prims signedToken (csrf_secret this) of
                          None \<Rightarrow> Inl InvalidCSRFError
                        | Some unsignedToken \<Rightarrow>
                            if unsignedToken = [] then Inl InvalidCSRFError
                            else if \<not> verifyToken prims cookieSecret unsignedToken
                            then Inl InvalidCSRFError
                            else let newToken = sign prims (createToken prims cookieSecret salt)
                                                  (csrf_secret this)
                                 in Inr (res\<lparr> setCookie :=
                                           Some [serialize tokenCookieName newToken
                                                   (cookieOptions this)] \<rparr>))
                   | other \<Rightarrow> Inl InvalidCSRFError))"

text \<open>Verifications of one request in a row, each with its own salt, on the response the
  one before left; the first failure ends the run.\<close>

fun verifyAll ::
    "Primitives \<Rightarrow> RealCSRF \<Rightarrow> IncomingMessage \<Rightarrow> 'a ServerResponse_scheme \<Rightarrow> string list \<Rightarrow>
     error + 'a ServerResponse_scheme" where
  "verifyAll prims this req res [] = Inr res"
| "verifyAll prims this req res (salt # salts) =
     (case verify prims this req res salt of
        Inl e \<Rightarrow> Inl e
      | Inr res' \<Rightarrow> verifyAll prims this req res' salts)"

section \<open>Internal notes (handleInternalNote)\<close>

record InternalNote =
  note_id :: int
  note_name :: string
  note_value :: "string option"

record EventTypeHost =
  host_user_id :: int

text \<open>\<open>owner\<close> is \<open>None\<close> when the event type has no owner (absent or null); an owner's id can
  be null.\<close>

record Owner =
  owner_id :: "int option"

record EventType =
  eventType_hosts :: "EventTypeHost list"
  eventType_owner :: "Owner option"

record BookingWithEventType =
  booking_id :: int
  eventType :: EventType

text \<open>The data of a row of \<^verbatim>\<open>bookingInternalNote\<close>, as \<^verbatim>\<open>create\<close> receives it.\<close>

record BookingInternalNote =
  bookingId :: int
  note_text :: "string option"
  notePresetId :: "int option"
  createdBy :: int

text \<open>
  The persistence layer is outside these sources. The table of internal notes is the state, a
  list that \<^verbatim>\<open>create\<close> extends by the new row; \<^verbatim>\<open>internalNotePreset.findFirstOrThrow\<close> is
  the parameter \<open>findFirst\<close>, called with the \<^verbatim>\<open>teamid\<close> and \<^verbatim>\<open>id\<close> of the \<^verbatim>\<open>where\<close> clause
  (\<^verbatim>\<open>teamId\<close> can be undefined or null), \<open>None\<close> when no preset matches. The result is the
  outcome together with the table after the call.
\<close>

definition create :: "BookingInternalNote \<Rightarrow> BookingInternalNote list \<Rightarrow>
    (error + BookingInternalNote) \<times> BookingInternalNote list" where
  "create row notes = (Inr row, notes @ [row])"

definition handleInternalNote ::
    "(int nullable \<Rightarrow> int \<Rightarrow> 'preset option) \<Rightarrow> InternalNote \<Rightarrow> BookingWithEventType \<Rightarrow> int \<Rightarrow>
     int nullable \<Rightarrow> BookingInternalNote list \<Rightarrow>
     (error + BookingInternalNote) \<times> BookingInternalNote list" where
  "handleInternalNote findFirst internalNote booking userId teamId notes =
     (let userIsHost = find (\<lambda>host. host_user_id host = userId) (eventType_hosts (eventType booking));
          userIsOwnerOfEventType =
            (case eventType_owner (eventType booking) of
               None \<Rightarrow> False
             | Some eventTypeOwner \<Rightarrow> owner_id eventTypeOwner = Some userId)
      in if userIsHost = None \<and> \<not> userIsOwnerOfEventType
         then (Inl (HttpError 403
                 ''You do not have permission to add an internal note to this booking.''), notes)
         else if note_id internalNote = -1
         then create \<lparr> bookingId = booking_id booking, note_text = note_value internalNote,
                       notePresetId = None, createdBy = userId \<rparr> notes
         else (case findFirst teamId (note_id internalNote) of
                 None \<Rightarrow> (Inl NotFoundError, notes)
               | Some preset \<Rightarrow>
                   create \<lparr> bookingId = booking_id booking, note_text = None,
                            notePresetId = Some (note_id internalNote), createdBy = userId \<rparr> notes))"

text \<open>The permission the note is subject to: the user is a host of the booking's event type or
  its owner.\<close>

definition mayAddNote :: "BookingWithEventType \<Rightarrow> int \<Rightarrow> bool" where
  "mayAddNote booking userId =
     (list_ex (\<lambda>host. host_user_id host = userId) (eventType_hosts (eventType booking)) \<or>
      (case eventType_owner (eventType booking) of
         None \<Rightarrow> False
       | Some eventTypeOwner \<Rightarrow> owner_id eventTypeOwner = Some userId))"

section \<open>Concrete inputs\<close>

text \<open>
  Values the results below are run on. \<open>flagNegativeId\<close> and \<open>clearDelegation\<close> are one
  instance of the merger's two parameters: ids below zero are flagged as delegated (the
  builder's placeholder id is -1), and the normalizer clears the delegation fields of a stored
  credential.
\<close>

definition googleCalendar :: AppMetadata where
  "googleCalendar = \<lparr> md_type = ''google_calendar'', md_slug = ''google-calendar'' \<rparr>"

definition googleMeet :: AppMetadata where
  "googleMeet = \<lparr> md_type = ''google_video'', md_slug = ''google-meet'' \<rparr>"

definition acmeDwd :: DomainWideDelegation where
  "acmeDwd = \<lparr> dwd_id = ''dwd-acme'', workspacePlatform_slug = ''google'',
               serviceAccountKey = None, enabled = True \<rparr>"

definition alice :: User where
  "alice = \<lparr> email = ''alice@acme.com'', user_id = 7 \<rparr>"

definition aliceCalendar :: credential where
  "aliceCalendar =
     \<lparr> cred_id = -1, delegatedToId = Some ''dwd-acme'', cred_userId = Some 7,
       user_email = Some ''alice@acme.com'', key = ''NOOP_UNUSED_DELEGATION_TOKEN'',
       invalid = Some False, cred_teamId = None, team = None, delegatedTo = None,
       cred_type = ''google_calendar'', appId = Some ''google-calendar'' \<rparr>"

definition aliceMeet :: credential where
  "aliceMeet =
     \<lparr> cred_id = -1, delegatedToId = Some ''dwd-acme'', cred_userId = Some 7,
       user_email = Some ''alice@acme.com'', key = ''NOOP_UNUSED_DELEGATION_TOKEN'',
       invalid = Some False, cred_teamId = None, team = None, delegatedTo = None,
       cred_type = ''google_video'', appId = Some ''google-meet'' \<rparr>"

definition aliceZoom :: credential where
  "aliceZoom =
     \<lparr> cred_id = 42, delegatedToId = None, cred_userId = Some 7,
       user_email = Some ''alice@acme.com'', key = ''zoom-token'',
       invalid = Some False, cred_teamId = None, team = None, delegatedTo = None,
       cred_type = ''zoom_video'', appId = Some ''zoom'' \<rparr>"

definition flagNegativeId :: "int \<Rightarrow> bool" where
  "flagNegativeId credentialId = (credentialId < 0)"

definition clearDelegation :: "credential list \<Rightarrow> credential list" where
  "clearDelegation = map (\<lambda>c. c\<lparr> delegatedToId := None, delegatedTo := None \<rparr>)"

text \<open>A stored credential whose \<open>delegatedToId\<close> is the empty string, and a repository
  with no delegation and no credential.\<close>

definition blankDelegation :: credential where
  "blankDelegation = aliceZoom\<lparr> delegatedToId := Some [] \<rparr>"

definition noDelegation :: "int \<Rightarrow> string option \<Rightarrow> DomainWideDelegation option" where
  "noDelegation organizationId domain = None"

definition acmeDelegation :: "int \<Rightarrow> string option \<Rightarrow> DomainWideDelegation option" where
  "acmeDelegation organizationId domain =
     (if organizationId = 1 \<and> domain = Some ''acme.com'' then Some acmeDwd else None)"

definition noCredential :: "int \<Rightarrow> credential option" where
  "noCredential credentialId = None"

definition zoomRepository :: "int \<Rightarrow> credential option" where
  "zoomRepository credentialId = (if credentialId = 42 then Some aliceZoom else None)"

text \<open>A booking hosted by user 7 and owned by user 9, and a preset table with the single
  preset 3 of team 1.\<close>

definition teamBooking :: BookingWithEventType where
  "teamBooking = \<lparr> booking_id = 100,
                   eventType = \<lparr> eventType_hosts = [\<lparr> host_user_id = 7 \<rparr>],
                                 eventType_owner = Some \<lparr> owner_id = Some 9 \<rparr> \<rparr> \<rparr>"

definition teamPresets :: "int nullable \<Rightarrow> int \<Rightarrow> string option" where
  "teamPresets teamId presetId =
     (if teamId = Value 1 \<and> presetId = 3 then Some ''No show'' else None)"

definition noPresets :: "int nullable \<Rightarrow> int \<Rightarrow> string option" where
  "noPresets teamId presetId = None"

text \<open>
  Stand-ins for the library primitives, to run the CSRF definitions on a concrete request:
  the digest wraps its input, signing appends the signing secret after a dot, and the cookie
  header is a list of \<^verbatim>\<open>name=value\<close> pairs separated by semicolons. They are not the
  algorithms of the libraries.
\<close>

definition demoUnsign :: "string \<Rightarrow> string \<Rightarrow> string option" where
  "demoUnsign signed signingSecret =
     (if drop (length signed - (length signingSecret + 1)) signed = ''.'' @ signingSecret \<and>
         length signingSecret + 1 \<le> length signed
      then Some (take (length signed - (length signingSecret + 1)) signed) else None)"

definition demoParse :: "string \<Rightarrow> (string \<rightharpoonup> string)" where
  "demoParse cookieHeader =
     map_of (map (\<lambda>pair. (takeWhile (\<lambda>c. c \<noteq> CHR ''='') pair,
                          drop 1 (dropWhile (\<lambda>c. c \<noteq> CHR ''='') pair)))
               (split CHR '';'' cookieHeader))"

definition demoPrimitives :: Primitives where
  "demoPrimitives =
     \<lparr> sha1_base64 = (\<lambda>str. ''D+'' @ str @ ''=''),
       sign = (\<lambda>val signingSecret. val @ ''.'' @ signingSecret),
       unsign = demoUnsign,
       parse = demoParse \<rparr>"

definition demoCSRF :: RealCSRF where
  "demoCSRF = newRealCSRF ''k'' ''production''"

definition emptyResponse :: ServerResponse where
  "emptyResponse = \<lparr> setCookie = None \<rparr>"

text \<open>A store with alice's user object, which holds her stored Zoom credential, and a host
  object that refers to it.\<close>

definition aliceUser :: TUser where
  "aliceUser = \<lparr> email = ''alice@acme.com'', user_id = 7, credentials = [aliceZoom] \<rparr>"

definition aliceEnriched :: TUser where
  "aliceEnriched = \<lparr> email = ''alice@acme.com'', user_id = 7,
                     credentials = [aliceCalendar, aliceMeet, aliceZoom] \<rparr>"

definition aliceStore :: "(unit, unit) object list" where
  "aliceStore = [UserObject aliceUser, HostObject \<lparr> host_user = 0 \<rparr>]"

section \<open>Credential builder: results\<close>

text \<open>
  C2. A null or disabled configuration, or one whose platform slug is not "google", gives no
  credential. An enabled "google" configuration gives exactly two credentials: the calendar
  credential (type and app id of the Google Calendar app) followed by the conferencing
  credential (type and app id of the Google Meet app), each with \<open>delegatedToId\<close> equal to the
  configuration's id and built for the given user. The source's own tests
  \<open>isCalendarCredential\<close> and \<open>isConferencingCredential\<close> accept them when the type of the
  calendar app ends in \<^verbatim>\<open>_calendar\<close> and the type of the conferencing app in
  \<^verbatim>\<open>_video\<close>, \<^verbatim>\<open>_conferencing\<close> or \<^verbatim>\<open>_messaging\<close>.
\<close>

theorem buildDwdCredentials_cases:
  "buildDwdCredentials cal meet None user = [] \<and>
   (\<not> enabled d \<longrightarrow> buildDwdCredentials cal meet (Some d) user = []) \<and>
   (workspacePlatform_slug d \<noteq> ''google'' \<longrightarrow> buildDwdCredentials cal meet (Some d) user = []) \<and>
   (enabled d \<and> workspacePlatform_slug d = ''google'' \<longrightarrow>
      (\<exists>calendar conferencing.
         buildDwdCredentials cal meet (Some d) user = [calendar, conferencing] \<and>
         buildDwdCalendarCredential cal d user = Some calendar \<and>
         buildDwdConferencingCredential meet d user = Some conferencing \<and>
         isCalendarCredential calendar = suffix ''_calendar'' (md_type cal) \<and>
         isConferencingCredential conferencing =
           (suffix ''_video'' (md_type meet) \<or> suffix ''_conferencing'' (md_type meet) \<or>
            suffix ''_messaging'' (md_type meet)) \<and>
         cred_type calendar = md_type cal \<and> appId calendar = Some (md_slug cal) \<and>
         cred_type conferencing = md_type meet \<and> appId conferencing = Some (md_slug meet) \<and>
         delegatedToId calendar = Some (dwd_id d) \<and>
         delegatedToId conferencing = Some (dwd_id d) \<and>
         cred_userId calendar = Some (user_id user) \<and> cred_userId conferencing = Some (user_id user)))"
  by (simp add: buildDwdCredentials_def buildDwdCalendarCredential_def
        buildDwdConferencingCredential_def buildCommonUserCredential_def
        withTypeAndAppId_def List.map_filter_simps isCalendarCredential_def
        isConferencingCredential_def)

theorem buildDwdCredentials_cases_witness:
  "buildDwdCredentials googleCalendar googleMeet (Some acmeDwd) alice = [aliceCalendar, aliceMeet] \<and>
   delegatedToId aliceCalendar = Some (dwd_id acmeDwd) \<and>
   delegatedToId aliceMeet = Some (dwd_id acmeDwd) \<and>
   buildDwdCredentials googleCalendar googleMeet (Some (acmeDwd\<lparr>enabled := False\<rparr>)) alice = [] \<and>
   buildDwdCredentials googleCalendar googleMeet
     (Some (acmeDwd\<lparr>workspacePlatform_slug := ''office365''\<rparr>)) alice = []"
  using buildDwdCredentials_cases[of googleCalendar googleMeet alice acmeDwd]
        buildDwdCredentials_cases[of googleCalendar googleMeet alice "acmeDwd\<lparr>enabled := False\<rparr>"]
        buildDwdCredentials_cases[of googleCalendar googleMeet alice
          "acmeDwd\<lparr>workspacePlatform_slug := ''office365''\<rparr>"]
  by (auto simp: acmeDwd_def alice_def googleCalendar_def googleMeet_def aliceCalendar_def
        aliceMeet_def buildDwdCalendarCredential_def buildDwdConferencingCredential_def
        buildCommonUserCredential_def withTypeAndAppId_def)

section \<open>Credential merger: results\<close>

subsection \<open>One step of the fold\<close>

lemma same_iff_key: "sameDwdCredential c k = (dwdKey k = dwdKey c)"
  by (simp add: sameDwdCredential_def dwdKey_def)

lemma same_pred_cong: "dwdKey c = dwdKey x \<Longrightarrow> sameDwdCredential c = sameDwdCredential x"
  by (auto simp: fun_eq_iff sameDwdCredential_def dwdKey_def)

lemma step_regular: "\<not> hasDelegation c \<Longrightarrow> uniqueAllCredentials_step acc c = acc @ [c]"
  by (simp add: uniqueAllCredentials_step_def hasDelegation_def)

lemma step_new: "find (sameDwdCredential c) acc = None \<Longrightarrow> uniqueAllCredentials_step acc c = acc @ [c]"
  by (simp add: uniqueAllCredentials_step_def)

lemma step_dup: "hasDelegation c \<Longrightarrow> find (sameDwdCredential c) acc = Some e \<Longrightarrow> uniqueAllCredentials_step acc c = acc"
  by (simp add: uniqueAllCredentials_step_def hasDelegation_def)

lemma step_cases:
  "uniqueAllCredentials_step acc c = acc @ [c] \<and> (\<not> hasDelegation c \<or> find (sameDwdCredential c) acc = None) \<or>
   uniqueAllCredentials_step acc c = acc \<and> hasDelegation c \<and> (\<exists>e. find (sameDwdCredential c) acc = Some e)"
  by (cases "find (sameDwdCredential c) acc") (auto simp: uniqueAllCredentials_step_def hasDelegation_def)

lemma foldl_step_regular:
  "\<forall>c\<in>set xs. \<not> hasDelegation c \<Longrightarrow> foldl uniqueAllCredentials_step acc xs = acc @ xs"
  by (induction xs arbitrary: acc) (simp_all add: step_regular)

lemma find_append: "find P (xs @ ys) = (case find P xs of Some x \<Rightarrow> Some x | None \<Rightarrow> find P ys)"
  by (induction xs) auto

lemma find_step:
  "find (sameDwdCredential c) (uniqueAllCredentials_step acc x) = find (sameDwdCredential c) (acc @ [x])"
proof -
  consider (keep) "uniqueAllCredentials_step acc x = acc @ [x]"
    | (drop) e where "uniqueAllCredentials_step acc x = acc" "find (sameDwdCredential x) acc = Some e"
    using step_cases[of acc x] by blast
  then show ?thesis
  proof cases
    case keep
    then show ?thesis by simp
  next
    case drop
    show ?thesis
    proof (cases "dwdKey x = dwdKey c")
      case True
      have eq: "sameDwdCredential c = sameDwdCredential x"
        by (rule same_pred_cong[OF True[symmetric]])
      have "find (sameDwdCredential x) (acc @ [x]) = find (sameDwdCredential x) acc"
        using drop(2) by (simp add: find_append)
      then show ?thesis unfolding eq drop(1) by simp
    next
      case False
      then have "\<not> sameDwdCredential c x" by (simp add: same_iff_key)
      with drop show ?thesis by (simp add: find_append split: option.splits)
    qed
  qed
qed

lemma find_foldl_step:
  "find (sameDwdCredential c) (foldl uniqueAllCredentials_step acc xs) = find (sameDwdCredential c) (acc @ xs)"
proof (induction xs arbitrary: acc)
  case Nil
  then show ?case by simp
next
  case (Cons x xs)
  have "find (sameDwdCredential c) (foldl uniqueAllCredentials_step acc (x # xs)) =
        find (sameDwdCredential c) (uniqueAllCredentials_step acc x @ xs)"
    using Cons.IH by simp
  also have "\<dots> = find (sameDwdCredential c) ((acc @ [x]) @ xs)"
    unfolding find_append[of _ "uniqueAllCredentials_step acc x"] find_append[of _ "acc @ [x]"] find_step ..
  finally show ?case by simp
qed

lemma filter_regular_step:
  "filter (\<lambda>c. \<not> hasDelegation c) (uniqueAllCredentials_step acc x) =
   filter (\<lambda>c. \<not> hasDelegation c) (acc @ [x])"
  using step_cases[of acc x] by auto

lemma filter_regular_foldl:
  "filter (\<lambda>c. \<not> hasDelegation c) (foldl uniqueAllCredentials_step acc xs) =
   filter (\<lambda>c. \<not> hasDelegation c) (acc @ xs)"
proof (induction xs arbitrary: acc)
  case Nil
  then show ?case by simp
next
  case (Cons x xs)
  have "filter (\<lambda>c. \<not> hasDelegation c) (foldl uniqueAllCredentials_step acc (x # xs)) =
        filter (\<lambda>c. \<not> hasDelegation c) (uniqueAllCredentials_step acc x) @ filter (\<lambda>c. \<not> hasDelegation c) xs"
    using Cons.IH by simp
  then show ?case by (simp add: filter_regular_step)
qed

lemma foldl_step_subseq:
  "\<exists>ys. foldl uniqueAllCredentials_step acc xs = acc @ ys \<and> subseq ys xs"
proof (induction xs arbitrary: acc)
  case Nil
  then show ?case by simp
next
  case (Cons x xs)
  obtain ys where ys: "foldl uniqueAllCredentials_step (uniqueAllCredentials_step acc x) xs =
      uniqueAllCredentials_step acc x @ ys" "subseq ys xs"
    using Cons.IH by blast
  from step_cases[of acc x] show ?case
  proof
    assume "uniqueAllCredentials_step acc x = acc @ [x] \<and> (\<not> hasDelegation x \<or> find (sameDwdCredential x) acc = None)"
    with ys have "foldl uniqueAllCredentials_step acc (x # xs) = acc @ (x # ys)" "subseq (x # ys) (x # xs)"
      by simp_all
    then show ?thesis by blast
  next
    assume "uniqueAllCredentials_step acc x = acc \<and> hasDelegation x \<and> (\<exists>e. find (sameDwdCredential x) acc = Some e)"
    with ys have "foldl uniqueAllCredentials_step acc (x # xs) = acc @ ys" "subseq ys (x # xs)"
      by (simp_all add: list_emb_Cons)
    then show ?thesis by blast
  qed
qed

lemma find_None_key: "find (sameDwdCredential x) acc = None \<longleftrightarrow> dwdKey x \<notin> dwdKey ` set acc"
  by (auto simp: find_None_iff same_iff_key image_iff)

lemma distinct_step:
  assumes "distinct (map dwdKey (filter hasDelegation acc))"
  shows "distinct (map dwdKey (filter hasDelegation (uniqueAllCredentials_step acc x)))"
proof -
  from step_cases[of acc x] show ?thesis
  proof (elim disjE conjE exE)
    assume k: "uniqueAllCredentials_step acc x = acc @ [x]" and "\<not> hasDelegation x"
    then show ?thesis using assms by simp
  next
    assume k: "uniqueAllCredentials_step acc x = acc @ [x]" and "find (sameDwdCredential x) acc = None"
    then have "dwdKey x \<notin> dwdKey ` set (filter hasDelegation acc)"
      unfolding find_None_key by auto
    then show ?thesis using assms k by simp
  next
    assume "uniqueAllCredentials_step acc x = acc"
    then show ?thesis using assms by simp
  qed
qed

lemma distinct_foldl_step:
  "distinct (map dwdKey (filter hasDelegation acc)) \<Longrightarrow>
   distinct (map dwdKey (filter hasDelegation (foldl uniqueAllCredentials_step acc xs)))"
  by (induction xs arbitrary: acc) (simp_all add: distinct_step)

lemma foldl_step_idem:
  assumes "\<forall>c\<in>set xs. hasDelegation c \<and> (\<exists>e. find (sameDwdCredential c) acc = Some e)"
  shows "foldl uniqueAllCredentials_step acc xs = acc"
  using assms by (induction xs arbitrary: acc) (auto simp: step_dup)

lemma foldl_step_twice:
  assumes "\<forall>c\<in>set xs. hasDelegation c"
  shows "foldl uniqueAllCredentials_step acc (xs @ xs) = foldl uniqueAllCredentials_step acc xs"
proof -
  have "\<exists>e. find (sameDwdCredential c) (foldl uniqueAllCredentials_step acc xs) = Some e" if "c \<in> set xs" for c
  proof -
    have "sameDwdCredential c c" by (simp add: sameDwdCredential_def)
    with that have "find (sameDwdCredential c) (acc @ xs) \<noteq> None"
      by (auto simp: find_None_iff)
    then show ?thesis by (simp add: find_foldl_step)
  qed
  with assms show ?thesis by (simp add: foldl_step_idem)
qed

lemma foldl_step_distinct_keep:
  assumes "\<forall>c\<in>set xs. dwdKey c \<notin> dwdKey ` set acc" "distinct (map dwdKey xs)"
  shows "foldl uniqueAllCredentials_step acc xs = acc @ xs"
  using assms
proof (induction xs arbitrary: acc)
  case Nil
  then show ?case by simp
next
  case (Cons x xs)
  have "find (sameDwdCredential x) acc = None"
    using Cons.prems(1) unfolding find_None_key by simp
  then have s: "uniqueAllCredentials_step acc x = acc @ [x]" by (rule step_new)
  have "foldl uniqueAllCredentials_step (acc @ [x]) xs = (acc @ [x]) @ xs"
  proof (rule Cons.IH)
    show "\<forall>c\<in>set xs. dwdKey c \<notin> dwdKey ` set (acc @ [x])"
      using Cons.prems by (auto simp: image_iff)
    show "distinct (map dwdKey xs)" using Cons.prems by simp
  qed
  with s show ?case by simp
qed


subsection \<open>The merged list\<close>

text \<open>
  C3. Write \<open>stored\<close> for the normalized stored credentials whose id is not flagged, and
  \<open>merged\<close> for the merger's output on the list \<open>dwdCredentials @ stored\<close>. Then \<open>merged\<close>
  is a subsequence of that list (insertion order); it keeps every credential with no delegation
  back-reference; among the credentials with a back-reference no two kept ones share
  back-reference and app id, and the kept one is the first of the list with that pair; at each
  position of the list the credential is appended to what was kept so far unless it has a
  back-reference and a kept credential has the same back-reference and app id, and what was
  kept so far stays a prefix of the output. When the normalizer yields credentials with no
  back-reference, as stored credentials are, the output is the deduplicated delegated
  credentials followed by all of \<open>stored\<close>: an unflagged stored credential is never dropped; and
  delegated credentials with pairwise distinct pairs come first unchanged, in builder order.
  A back-reference is present when \<open>delegatedToId\<close> passes the source's test, that is, when it
  is a non-empty string.
\<close>

theorem buildAllCredentials_merge:
  fixes isDwdCredential buildNonDwdCredentials dwdCredentials existingCredentials
  defines "stored \<equiv> buildNonDwdCredentials
                      (filter (\<lambda>cred. \<not> isDwdCredential (cred_id cred)) existingCredentials)"
  defines "merged \<equiv> buildAllCredentials isDwdCredential buildNonDwdCredentials
                      dwdCredentials existingCredentials"
  shows
  "subseq merged (dwdCredentials @ stored) \<and>
   filter (\<lambda>c. \<not> hasDelegation c) merged = filter (\<lambda>c. \<not> hasDelegation c) (dwdCredentials @ stored) \<and>
   distinct (map dwdKey (filter hasDelegation merged)) \<and>
   (\<forall>c. find (sameDwdCredential c) merged = find (sameDwdCredential c) (dwdCredentials @ stored)) \<and>
   (\<forall>earlier c later. dwdCredentials @ stored = earlier @ c # later \<longrightarrow>
      (let kept = foldl uniqueAllCredentials_step [] earlier in
         prefix kept merged \<and>
         foldl uniqueAllCredentials_step [] (earlier @ [c]) =
           (if hasDelegation c \<and> (\<exists>k\<in>set kept. sameDwdCredential c k) then kept else kept @ [c]))) \<and>
   ((\<forall>c\<in>set stored. \<not> hasDelegation c) \<longrightarrow>
      merged = foldl uniqueAllCredentials_step [] dwdCredentials @ stored) \<and>
   ((\<forall>c\<in>set stored. \<not> hasDelegation c) \<and> (\<forall>c\<in>set dwdCredentials. hasDelegation c) \<and>
    distinct (map dwdKey dwdCredentials) \<longrightarrow>
      merged = dwdCredentials @ stored)"
proof -
  let ?all = "dwdCredentials @ stored"
  have m: "merged = foldl uniqueAllCredentials_step [] ?all"
    by (simp add: merged_def stored_def buildAllCredentials_def)
  have p1: "subseq merged ?all"
    using foldl_step_subseq[of "[]" ?all] by (auto simp: m)
  have p2: "filter (\<lambda>c. \<not> hasDelegation c) merged = filter (\<lambda>c. \<not> hasDelegation c) ?all"
    unfolding m using filter_regular_foldl[of "[]" ?all] by simp
  have p3: "distinct (map dwdKey (filter hasDelegation merged))"
    unfolding m by (rule distinct_foldl_step) simp
  have p4: "\<forall>c. find (sameDwdCredential c) merged = find (sameDwdCredential c) ?all"
    unfolding m using find_foldl_step[of _ "[]" ?all] by simp
  have p5: "\<forall>earlier c later. ?all = earlier @ c # later \<longrightarrow>
      (let kept = foldl uniqueAllCredentials_step [] earlier in
         prefix kept merged \<and>
         foldl uniqueAllCredentials_step [] (earlier @ [c]) =
           (if hasDelegation c \<and> (\<exists>k\<in>set kept. sameDwdCredential c k) then kept else kept @ [c]))"
  proof (intro allI impI)
    fix earlier c later
    assume split: "?all = earlier @ c # later"
    let ?kept = "foldl uniqueAllCredentials_step [] earlier"
    obtain ys where "foldl uniqueAllCredentials_step ?kept (c # later) = ?kept @ ys"
      using foldl_step_subseq[of ?kept "c # later"] by blast
    then have "merged = ?kept @ ys"
      unfolding m split by simp
    then have a: "prefix ?kept merged" by simp
    have f: "(\<exists>k\<in>set ?kept. sameDwdCredential c k) \<longleftrightarrow> find (sameDwdCredential c) ?kept \<noteq> None"
      by (auto simp: find_None_iff)
    have b: "foldl uniqueAllCredentials_step [] (earlier @ [c]) =
           (if hasDelegation c \<and> (\<exists>k\<in>set ?kept. sameDwdCredential c k) then ?kept else ?kept @ [c])"
      unfolding f using step_cases[of ?kept c] by auto
    from a b show "let kept = ?kept in
         prefix kept merged \<and>
         foldl uniqueAllCredentials_step [] (earlier @ [c]) =
           (if hasDelegation c \<and> (\<exists>k\<in>set kept. sameDwdCredential c k) then kept else kept @ [c])"
      by (simp add: Let_def)
  qed
  have p6: "merged = foldl uniqueAllCredentials_step [] dwdCredentials @ stored"
    if "\<forall>c\<in>set stored. \<not> hasDelegation c"
    unfolding m using that by (simp add: foldl_step_regular)
  have p7: "merged = dwdCredentials @ stored"
    if "\<forall>c\<in>set stored. \<not> hasDelegation c" "\<forall>c\<in>set dwdCredentials. hasDelegation c"
       "distinct (map dwdKey dwdCredentials)"
  proof -
    have "foldl uniqueAllCredentials_step [] dwdCredentials = [] @ dwdCredentials"
      by (rule foldl_step_distinct_keep) (use that in simp_all)
    with p6[OF that(1)] show ?thesis by simp
  qed
  from p1 p2 p3 p4 p5 p6 p7 show ?thesis by blast
qed


theorem buildAllCredentials_merge_witness:
  "buildAllCredentials flagNegativeId clearDelegation
     [aliceCalendar, aliceMeet, aliceCalendar] [aliceZoom, aliceMeet] =
     [aliceCalendar, aliceMeet, aliceZoom] \<and>
   distinct (map dwdKey [aliceCalendar, aliceMeet]) \<and>
   buildAllCredentials flagNegativeId clearDelegation [aliceCalendar, aliceMeet] [aliceZoom] =
     [aliceCalendar, aliceMeet, aliceZoom]"
proof -
  have stored: "clearDelegation (filter (\<lambda>cred. \<not> flagNegativeId (cred_id cred)) [aliceZoom, aliceMeet]) = [aliceZoom]"
       "clearDelegation (filter (\<lambda>cred. \<not> flagNegativeId (cred_id cred)) [aliceZoom]) = [aliceZoom]"
    by (simp_all add: clearDelegation_def flagNegativeId_def aliceZoom_def aliceMeet_def)
  have regular: "\<forall>c\<in>set [aliceZoom]. \<not> hasDelegation c"
    by (simp add: hasDelegation_def aliceZoom_def)
  have delegated: "\<forall>c\<in>set [aliceCalendar, aliceMeet]. hasDelegation c"
    by (simp add: hasDelegation_def aliceCalendar_def aliceMeet_def)
  have keys: "distinct (map dwdKey [aliceCalendar, aliceMeet])"
    by (simp add: dwdKey_def aliceCalendar_def aliceMeet_def)
  have dedup: "foldl uniqueAllCredentials_step [] [aliceCalendar, aliceMeet, aliceCalendar] =
      [aliceCalendar, aliceMeet]"
    by (simp add: uniqueAllCredentials_step_def sameDwdCredential_def aliceCalendar_def aliceMeet_def)
  have first: "buildAllCredentials flagNegativeId clearDelegation
      [aliceCalendar, aliceMeet, aliceCalendar] [aliceZoom, aliceMeet] =
      foldl uniqueAllCredentials_step [] [aliceCalendar, aliceMeet, aliceCalendar] @ [aliceZoom]"
    using buildAllCredentials_merge[of flagNegativeId clearDelegation
         "[aliceCalendar, aliceMeet, aliceCalendar]" "[aliceZoom, aliceMeet]"] regular
    unfolding stored by blast
  have second: "buildAllCredentials flagNegativeId clearDelegation
      [aliceCalendar, aliceMeet] [aliceZoom] = [aliceCalendar, aliceMeet] @ [aliceZoom]"
    using buildAllCredentials_merge[of flagNegativeId clearDelegation
         "[aliceCalendar, aliceMeet]" "[aliceZoom]"] regular delegated keys
    unfolding stored by blast
  from first second keys show ?thesis unfolding dedup by simp
qed

text \<open>
  C4. For delegated credentials (each has a delegation back-reference), merging the list
  duplicated gives the same output as merging it once, whatever the stored credentials are;
  in particular this holds when the (delegation id, app id) pairs of the list are pairwise
  distinct.
\<close>

theorem buildAllCredentials_duplicated_delegated:
  assumes "\<forall>c\<in>set dwdCredentials. hasDelegation c"
  shows "buildAllCredentials isDwdCredential buildNonDwdCredentials
           (dwdCredentials @ dwdCredentials) existingCredentials =
         buildAllCredentials isDwdCredential buildNonDwdCredentials
           dwdCredentials existingCredentials"
  using foldl_step_twice[OF assms, of "[]"]
  by (simp add: buildAllCredentials_def)


theorem buildAllCredentials_duplicated_delegated_witness:
  "hasDelegation aliceCalendar \<and> hasDelegation aliceMeet \<and>
   buildAllCredentials flagNegativeId clearDelegation
     ([aliceCalendar, aliceMeet] @ [aliceCalendar, aliceMeet]) [aliceZoom] =
   buildAllCredentials flagNegativeId clearDelegation [aliceCalendar, aliceMeet] [aliceZoom]"
proof -
  have delegated: "\<forall>c\<in>set [aliceCalendar, aliceMeet]. hasDelegation c"
    by (simp add: hasDelegation_def aliceCalendar_def aliceMeet_def)
  from buildAllCredentials_duplicated_delegated[OF delegated, of flagNegativeId clearDelegation "[aliceZoom]"]
       delegated
  show ?thesis by simp
qed

section \<open>Slot query normalizer: results\<close>

lemma digit_Some: "digit c = Some d \<Longrightarrow> d < 10 \<and> digitChar d = c"
  by (auto simp: digit_def digitChar_def split: if_splits)

lemma pad_Suc_left: "pad (Suc n) v = digitChar ((v div 10 ^ n) mod 10) # pad n v"
proof (induction n arbitrary: v)
  case 0
  then show ?case by simp
next
  case (Suc n)
  have "pad (Suc (Suc n)) v = pad (Suc n) (v div 10) @ [digitChar (v mod 10)]" by simp
  also have "\<dots> = (digitChar ((v div 10 div 10 ^ n) mod 10) # pad n (v div 10)) @ [digitChar (v mod 10)]"
    by (simp only: Suc.IH)
  also have "\<dots> = digitChar ((v div 10 ^ Suc n) mod 10) # pad (Suc n) v"
    by (simp add: div_mult2_eq)
  finally show ?case .
qed

lemma number_pad:
  "number acc s = Some v \<Longrightarrow> pad (length s) v = s \<and> v div 10 ^ length s = acc"
proof (induction s arbitrary: acc v)
  case Nil
  then show ?case by simp
next
  case (Cons c cs)
  from Cons.prems obtain d where d: "digit c = Some d" "number (10 * acc + d) cs = Some v"
    by (auto split: option.splits)
  from Cons.IH[OF d(2)] have ih: "pad (length cs) v = cs" "v div 10 ^ length cs = 10 * acc + d"
    by simp_all
  from digit_Some[OF d(1)] have dc: "d < 10" "digitChar d = c" by simp_all
  have "pad (length (c # cs)) v = digitChar ((v div 10 ^ length cs) mod 10) # pad (length cs) v"
    unfolding length_Cons by (rule pad_Suc_left)
  also have "\<dots> = c # cs" using ih dc by simp
  finally have a: "pad (length (c # cs)) v = c # cs" .
  have "v div 10 ^ length (c # cs) = (v div 10 ^ length cs) div 10"
    by (simp only: length_Cons power_Suc2 div_mult2_eq)
  also have "\<dots> = acc" using ih(2) dc(1) by simp
  finally show ?case using a by simp
qed

lemma drop_segment:
  "i + n < length xs \<Longrightarrow> drop i xs = take n (drop i xs) @ xs ! (i + n) # drop (Suc (i + n)) xs"
proof -
  assume l: "i + n < length xs"
  have a: "drop i xs = take n (drop i xs) @ drop n (drop i xs)"
    by (rule append_take_drop_id[symmetric])
  have b: "drop n (drop i xs) = drop (i + n) xs" by (simp add: add.commute)
  have c: "drop (i + n) xs = xs ! (i + n) # drop (Suc (i + n)) xs"
    using l by (simp add: Cons_nth_drop_Suc)
  from a show ?thesis unfolding b c .
qed

lemma fromISO_utc_toISO_utc:
  assumes "fromISO_utc isoText = Some dateTime"
  shows "toISO_utc dateTime = isoText"
proof -
  have guard: "length isoText = 24 \<and> isoText ! 4 = CHR ''-'' \<and> isoText ! 7 = CHR ''-'' \<and>
         isoText ! 10 = CHR ''T'' \<and> isoText ! 13 = CHR '':'' \<and> isoText ! 16 = CHR '':'' \<and>
         isoText ! 19 = CHR ''.'' \<and> isoText ! 23 = CHR ''Z''"
  proof (rule ccontr)
    assume "\<not> (length isoText = 24 \<and> isoText ! 4 = CHR ''-'' \<and> isoText ! 7 = CHR ''-'' \<and>
         isoText ! 10 = CHR ''T'' \<and> isoText ! 13 = CHR '':'' \<and> isoText ! 16 = CHR '':'' \<and>
         isoText ! 19 = CHR ''.'' \<and> isoText ! 23 = CHR ''Z'')"
    then have "fromISO_utc isoText = None"
      unfolding fromISO_utc_def by (rule if_not_P)
    with assms show False by simp
  qed
  then have shape: "length isoText = 24" "isoText ! 4 = CHR ''-''" "isoText ! 7 = CHR ''-''"
      "isoText ! 10 = CHR ''T''" "isoText ! 13 = CHR '':''" "isoText ! 16 = CHR '':''"
      "isoText ! 19 = CHR ''.''" "isoText ! 23 = CHR ''Z''"
    by simp_all
  have fields: "(case (number 0 (take 4 isoText), number 0 (take 2 (drop 5 isoText)),
                  number 0 (take 2 (drop 8 isoText)), number 0 (take 2 (drop 11 isoText)),
                  number 0 (take 2 (drop 14 isoText)), number 0 (take 2 (drop 17 isoText)),
                  number 0 (take 3 (drop 20 isoText))) of
              (Some y, Some mo, Some d, Some h, Some mi, Some s, Some ms) \<Rightarrow>
                if 1 \<le> mo \<and> mo \<le> 12 \<and> 1 \<le> d \<and> d \<le> daysInMonth y mo \<and>
                   h \<le> 23 \<and> mi \<le> 59 \<and> s \<le> 59
                then Some \<lparr> year = y, month = mo, day = d, hour = h, minute = mi,
                            second = s, millisecond = ms \<rparr>
                else None
            | other \<Rightarrow> None) = Some dateTime"
    using assms unfolding fromISO_utc_def if_P[OF guard] .
  obtain y where n1: "number 0 (take 4 isoText) = Some y"
    using fields by (cases "number 0 (take 4 isoText)") simp_all
  obtain mo where n2: "number 0 (take 2 (drop 5 isoText)) = Some mo"
    using fields n1 by (cases "number 0 (take 2 (drop 5 isoText))") simp_all
  obtain d where n3: "number 0 (take 2 (drop 8 isoText)) = Some d"
    using fields n1 n2 by (cases "number 0 (take 2 (drop 8 isoText))") simp_all
  obtain h where n4: "number 0 (take 2 (drop 11 isoText)) = Some h"
    using fields n1 n2 n3 by (cases "number 0 (take 2 (drop 11 isoText))") simp_all
  obtain mi where n5: "number 0 (take 2 (drop 14 isoText)) = Some mi"
    using fields n1 n2 n3 n4 by (cases "number 0 (take 2 (drop 14 isoText))") simp_all
  obtain s where n6: "number 0 (take 2 (drop 17 isoText)) = Some s"
    using fields n1 n2 n3 n4 n5 by (cases "number 0 (take 2 (drop 17 isoText))") simp_all
  obtain ms where n7: "number 0 (take 3 (drop 20 isoText)) = Some ms"
    using fields n1 n2 n3 n4 n5 n6 by (cases "number 0 (take 3 (drop 20 isoText))") simp_all
  note n = n1 n2 n3 n4 n5 n6 n7
  have dt: "dateTime = \<lparr> year = y, month = mo, day = d, hour = h, minute = mi,
                            second = s, millisecond = ms \<rparr>"
    using fields unfolding n by (simp split: if_splits)
  have p: "pad 4 y = take 4 isoText" "pad 2 mo = take 2 (drop 5 isoText)" "pad 2 d = take 2 (drop 8 isoText)"
      "pad 2 h = take 2 (drop 11 isoText)" "pad 2 mi = take 2 (drop 14 isoText)"
      "pad 2 s = take 2 (drop 17 isoText)" "pad 3 ms = take 3 (drop 20 isoText)"
    using number_pad[OF n(1)] number_pad[OF n(2)] number_pad[OF n(3)] number_pad[OF n(4)]
      number_pad[OF n(5)] number_pad[OF n(6)] number_pad[OF n(7)] shape(1)
    by simp_all
  have s0: "isoText = take 4 isoText @ CHR ''-'' # drop 5 isoText"
    using drop_segment[of 0 4 isoText] shape by simp
  have s5: "drop 5 isoText = take 2 (drop 5 isoText) @ CHR ''-'' # drop 8 isoText"
    using drop_segment[of 5 2 isoText] shape by simp
  have s8: "drop 8 isoText = take 2 (drop 8 isoText) @ CHR ''T'' # drop 11 isoText"
    using drop_segment[of 8 2 isoText] shape by simp
  have s11: "drop 11 isoText = take 2 (drop 11 isoText) @ CHR '':'' # drop 14 isoText"
    using drop_segment[of 11 2 isoText] shape by simp
  have s14: "drop 14 isoText = take 2 (drop 14 isoText) @ CHR '':'' # drop 17 isoText"
    using drop_segment[of 14 2 isoText] shape by simp
  have s17: "drop 17 isoText = take 2 (drop 17 isoText) @ CHR ''.'' # drop 20 isoText"
    using drop_segment[of 17 2 isoText] shape by simp
  have s20: "drop 20 isoText = take 3 (drop 20 isoText) @ CHR ''Z'' # drop 24 isoText"
    using drop_segment[of 20 3 isoText] shape by simp
  have s24: "drop 24 isoText = []" using shape(1) by simp
  have "toISO_utc dateTime =
      take 4 isoText @ CHR ''-'' # take 2 (drop 5 isoText) @ CHR ''-'' # take 2 (drop 8 isoText) @
      CHR ''T'' # take 2 (drop 11 isoText) @ CHR '':'' # take 2 (drop 14 isoText) @ CHR '':'' #
      take 2 (drop 17 isoText) @ CHR ''.'' # take 3 (drop 20 isoText) @ [CHR ''Z'']"
    by (simp add: toISO_utc_def dt p)
  also have "\<dots> = isoText"
    using s0 s5 s8 s11 s14 s17 s20 s24 by metis
  finally show ?thesis .
qed


text \<open>
  C1. The end time is parsed in UTC; a text the parser rejects gives null. When the parsed
  hour, minute and second are all 0 the result is the serialization of the same date at
  23:59:59 (the millisecond field is not tested and is kept); otherwise it is the
  serialization of the parsed time itself, and for a text in the form \<^verbatim>\<open>toISO\<close> writes that
  is the text unchanged. \<^verbatim>\<open>"2024-01-01T00:00:00.000Z"\<close> gives
  \<^verbatim>\<open>"2024-01-01T23:59:59.000Z"\<close>, and \<^verbatim>\<open>"2024-01-01T10:30:00.000Z"\<close> is returned
  unchanged.
\<close>

theorem adjustEndTime_cases:
  "(fromISO endTime = None \<longrightarrow> adjustEndTime fromISO toISO endTime = None) \<and>
   (fromISO endTime = Some dateTime \<and>
    hour dateTime = 0 \<and> minute dateTime = 0 \<and> second dateTime = 0 \<longrightarrow>
      adjustEndTime fromISO toISO endTime =
        Some (toISO \<lparr> year = year dateTime, month = month dateTime, day = day dateTime,
                       hour = 23, minute = 59, second = 59,
                       millisecond = millisecond dateTime \<rparr>)) \<and>
   (fromISO endTime = Some dateTime \<and>
    \<not> (hour dateTime = 0 \<and> minute dateTime = 0 \<and> second dateTime = 0) \<longrightarrow>
      adjustEndTime fromISO toISO endTime = Some (toISO dateTime)) \<and>
   (fromISO_utc endTime = Some dateTime \<and>
    \<not> (hour dateTime = 0 \<and> minute dateTime = 0 \<and> second dateTime = 0) \<longrightarrow>
      adjustEndTime fromISO_utc toISO_utc endTime = Some endTime) \<and>
   adjustEndTime fromISO_utc toISO_utc ''2024-01-01T00:00:00.000Z'' =
     Some ''2024-01-01T23:59:59.000Z'' \<and>
   adjustEndTime fromISO_utc toISO_utc ''2024-01-01T10:30:00.000Z'' =
     Some ''2024-01-01T10:30:00.000Z''"
proof -
  have invalid: "adjustEndTime fromISO toISO endTime = None" if "fromISO endTime = None"
    using that by (simp add: adjustEndTime_def)
  have midnight: "adjustEndTime fromISO toISO endTime =
        Some (toISO \<lparr> year = year dateTime, month = month dateTime, day = day dateTime,
                       hour = 23, minute = 59, second = 59,
                       millisecond = millisecond dateTime \<rparr>)"
    if "fromISO endTime = Some dateTime" "hour dateTime = 0" "minute dateTime = 0"
       "second dateTime = 0"
    using that by (cases dateTime) (simp add: adjustEndTime_def)
  have other: "adjustEndTime f t endTime = Some (t dateTime)"
    if "f endTime = Some dateTime"
       "\<not> (hour dateTime = 0 \<and> minute dateTime = 0 \<and> second dateTime = 0)"
    for f t
    using that by (auto simp: adjustEndTime_def)
  have unchanged: "adjustEndTime fromISO_utc toISO_utc endTime = Some endTime"
    if "fromISO_utc endTime = Some dateTime"
       "\<not> (hour dateTime = 0 \<and> minute dateTime = 0 \<and> second dateTime = 0)"
    using other[where f = fromISO_utc and t = toISO_utc, OF that]
      fromISO_utc_toISO_utc[OF that(1)] by simp
  have first: "adjustEndTime fromISO_utc toISO_utc ''2024-01-01T00:00:00.000Z'' =
     Some ''2024-01-01T23:59:59.000Z''"
    by code_simp
  have second: "adjustEndTime fromISO_utc toISO_utc ''2024-01-01T10:30:00.000Z'' =
     Some ''2024-01-01T10:30:00.000Z''"
    by code_simp
  from invalid midnight other[where f = fromISO and t = toISO] unchanged first second
  show ?thesis by blast
qed

theorem adjustEndTime_cases_witness:
  "adjustEndTime fromISO_utc toISO_utc ''tomorrow'' = None \<and>
   fromISO_utc ''2023-12-31T00:00:00.250Z'' =
     Some \<lparr> year = 2023, month = 12, day = 31, hour = 0, minute = 0, second = 0,
             millisecond = 250 \<rparr> \<and>
   adjustEndTime fromISO_utc toISO_utc ''2023-12-31T00:00:00.250Z'' =
     Some ''2023-12-31T23:59:59.250Z'' \<and>
   fromISO_utc ''2024-02-29T00:00:01.000Z'' =
     Some \<lparr> year = 2024, month = 2, day = 29, hour = 0, minute = 0, second = 1,
             millisecond = 0 \<rparr> \<and>
   adjustEndTime fromISO_utc toISO_utc ''2024-02-29T00:00:01.000Z'' =
     Some ''2024-02-29T00:00:01.000Z''"
proof -
  have none: "fromISO_utc ''tomorrow'' = None"
    by code_simp
  have eve: "fromISO_utc ''2023-12-31T00:00:00.250Z'' =
     Some \<lparr> year = 2023, month = 12, day = 31, hour = 0, minute = 0, second = 0,
             millisecond = 250 \<rparr>"
    by code_simp
  have leap: "fromISO_utc ''2024-02-29T00:00:01.000Z'' =
     Some \<lparr> year = 2024, month = 2, day = 29, hour = 0, minute = 0, second = 1,
             millisecond = 0 \<rparr>"
    by code_simp
  have written: "toISO_utc \<lparr> year = 2023, month = 12, day = 31, hour = 23, minute = 59,
      second = 59, millisecond = 250 \<rparr> = ''2023-12-31T23:59:59.250Z''"
    by code_simp
  have later: "\<not> (hour \<lparr> year = 2024, month = 2, day = 29, hour = 0, minute = 0, second = 1,
           millisecond = 0 \<rparr> = 0 \<and>
        minute \<lparr> year = 2024, month = 2, day = 29, hour = 0, minute = 0, second = 1,
           millisecond = 0 \<rparr> = 0 \<and>
        second \<lparr> year = 2024, month = 2, day = 29, hour = 0, minute = 0, second = 1,
           millisecond = 0 \<rparr> = 0)"
    by simp
  have a: "adjustEndTime fromISO_utc toISO_utc ''tomorrow'' = None"
    using adjustEndTime_cases[of fromISO_utc "''tomorrow''" toISO_utc] none by simp
  have b: "adjustEndTime fromISO_utc toISO_utc ''2023-12-31T00:00:00.250Z'' =
     Some ''2023-12-31T23:59:59.250Z''"
    using adjustEndTime_cases[of fromISO_utc "''2023-12-31T00:00:00.250Z''" toISO_utc
        "\<lparr> year = 2023, month = 12, day = 31, hour = 0, minute = 0, second = 0,
           millisecond = 250 \<rparr>"] eve written
    by simp
  have c: "adjustEndTime fromISO_utc toISO_utc ''2024-02-29T00:00:01.000Z'' =
     Some ''2024-02-29T00:00:01.000Z''"
    using adjustEndTime_cases[of fromISO_utc "''2024-02-29T00:00:01.000Z''" toISO_utc
        "\<lparr> year = 2024, month = 2, day = 29, hour = 0, minute = 0, second = 1,
           millisecond = 0 \<rparr>"] leap later
    by blast
  from a b c eve leap show ?thesis by simp
qed

section \<open>Credential lookup utilities: results\<close>

lemma find_Some_pred: "find P xs = Some x \<Longrightarrow> P x \<and> x \<in> set xs"
  by (auto simp: find_Some_iff)


text \<open>
  C5, as amended. An id is supplied when it passes the source's test: a delegation id that is a
  non-empty string, a numeric id that is a non-zero number; a credential has a delegation
  back-reference when its \<open>delegatedToId\<close> is a non-empty string. When neither id is supplied,
  both lookups return null. The list lookup returns a credential with a back-reference only
  when the back-reference equals the delegation id asked for, and a credential without one
  only when the numeric id is supplied and equals the credential's id: an absent
  \<open>delegatedToId\<close> is never matched against an absent delegation id. The repository lookup
  with a delegation id supplied searches the delegated credentials by back-reference only,
  whatever the numeric id and the repository are; without a delegation id and with a numeric
  id it returns what the repository finds, and the delegated credentials are not searched.
\<close>

theorem credential_lookup_branches:
  "(\<not> truthy_string dwdId \<and> \<not> truthy_number credentialId \<longrightarrow>
      getDwdOrRegularCredential credentialList credentialId dwdId = None \<and>
      getDwdOrFindRegularCredential findById credentialId dwdId dwdCredentials = Null) \<and>
   (getDwdOrRegularCredential credentialList credentialId dwdId = Some cred \<and>
    truthy_string (delegatedToId cred) \<longrightarrow>
      cred \<in> set credentialList \<and> delegatedToId cred = dwdId) \<and>
   (getDwdOrRegularCredential credentialList credentialId dwdId = Some cred \<and>
    \<not> truthy_string (delegatedToId cred) \<longrightarrow>
      cred \<in> set credentialList \<and> truthy_number credentialId \<and> credentialId = Some (cred_id cred)) \<and>
   (truthy_string dwdId \<longrightarrow>
      getDwdOrFindRegularCredential findById credentialId dwdId dwdCredentials =
        getDwdOrFindRegularCredential findById' credentialId' dwdId dwdCredentials \<and>
      (getDwdOrFindRegularCredential findById credentialId dwdId dwdCredentials = Undefined \<or>
       (\<exists>found. getDwdOrFindRegularCredential findById credentialId dwdId dwdCredentials = Value found \<and>
          found \<in> set dwdCredentials \<and> delegatedToId found = dwdId))) \<and>
   (\<not> truthy_string dwdId \<and> credentialId = Some n \<and> n \<noteq> 0 \<longrightarrow>
      getDwdOrFindRegularCredential findById credentialId dwdId dwdCredentials =
        (case findById n of None \<Rightarrow> Null | Some stored \<Rightarrow> Value stored))"
proof -
  let ?P = "\<lambda>c::'a CommonUserCredential_scheme.
             if truthy_string (delegatedToId c) then delegatedToId c = dwdId
             else if truthy_number credentialId then Some (cred_id c) = credentialId
             else False"
  have a: "getDwdOrRegularCredential credentialList credentialId dwdId = None \<and>
      getDwdOrFindRegularCredential findById credentialId dwdId dwdCredentials = Null"
    if "\<not> truthy_string dwdId" "\<not> truthy_number credentialId"
  proof -
    have "\<not> ?P c" for c using that by auto
    then have "getDwdOrRegularCredential credentialList credentialId dwdId = None"
      by (simp add: getDwdOrRegularCredential_def find_None_iff)
    moreover have "getDwdOrFindRegularCredential findById credentialId dwdId dwdCredentials = Null"
      using that by (cases credentialId) (simp_all add: getDwdOrFindRegularCredential_def)
    ultimately show ?thesis by simp
  qed
  have found: "?P cred \<and> cred \<in> set credentialList"
    if "getDwdOrRegularCredential credentialList credentialId dwdId = Some cred"
    using that unfolding getDwdOrRegularCredential_def by (rule find_Some_pred)
  have b: "cred \<in> set credentialList \<and> delegatedToId cred = dwdId"
    if "getDwdOrRegularCredential credentialList credentialId dwdId = Some cred"
       "truthy_string (delegatedToId cred)"
    using found[OF that(1)] that(2) by simp
  have c: "cred \<in> set credentialList \<and> truthy_number credentialId \<and> credentialId = Some (cred_id cred)"
    if "getDwdOrRegularCredential credentialList credentialId dwdId = Some cred"
       "\<not> truthy_string (delegatedToId cred)"
    using found[OF that(1)] that(2) by (auto split: if_splits)
  have d: "getDwdOrFindRegularCredential findById credentialId dwdId dwdCredentials =
        getDwdOrFindRegularCredential findById' credentialId' dwdId dwdCredentials \<and>
      (getDwdOrFindRegularCredential findById credentialId dwdId dwdCredentials = Undefined \<or>
       (\<exists>found. getDwdOrFindRegularCredential findById credentialId dwdId dwdCredentials = Value found \<and>
          found \<in> set dwdCredentials \<and> delegatedToId found = dwdId))"
    if "truthy_string dwdId"
  proof (cases "find (\<lambda>cred. delegatedToId cred = dwdId) dwdCredentials")
    case None
    with that show ?thesis by (simp add: getDwdOrFindRegularCredential_def)
  next
    case (Some x)
    from find_Some_pred[OF Some] Some that show ?thesis
      by (simp add: getDwdOrFindRegularCredential_def)
  qed
  have e: "getDwdOrFindRegularCredential findById credentialId dwdId dwdCredentials =
        (case findById n of None \<Rightarrow> Null | Some stored \<Rightarrow> Value stored)"
    if "\<not> truthy_string dwdId" "credentialId = Some n" "n \<noteq> 0"
    using that by (simp add: getDwdOrFindRegularCredential_def)
  from a b c d e show ?thesis by blast
qed


text \<open>
  The claim as stated, for every credential with a non-null back-reference, fails for the
  back-reference \<^verbatim>\<open>""\<close>: the test \<^verbatim>\<open>if (cred.delegatedToId)\<close> sends it to the numeric
  branch, where only the numeric id 42 is compared.
\<close>

theorem credential_lookup_counterexample:
  "getDwdOrRegularCredential [blankDelegation] (Some 42) None = Some blankDelegation \<and>
   delegatedToId blankDelegation \<noteq> None"
  by (simp add: getDwdOrRegularCredential_def blankDelegation_def aliceZoom_def)


theorem credential_lookup_branches_witness:
  "getDwdOrRegularCredential [aliceCalendar, aliceZoom] None None = None \<and>
   getDwdOrFindRegularCredential zoomRepository None None [aliceCalendar] = Null \<and>
   getDwdOrRegularCredential [aliceCalendar, aliceZoom] (Some (-1)) (Some ''dwd-acme'') = Some aliceCalendar \<and>
   delegatedToId aliceCalendar = Some ''dwd-acme'' \<and>
   getDwdOrRegularCredential [aliceCalendar, aliceZoom] (Some 42) None = Some aliceZoom \<and>
   Some 42 = Some (cred_id aliceZoom) \<and>
   getDwdOrFindRegularCredential zoomRepository (Some 42) (Some ''dwd-acme'') [aliceCalendar] =
     getDwdOrFindRegularCredential noCredential None (Some ''dwd-acme'') [aliceCalendar] \<and>
   getDwdOrFindRegularCredential zoomRepository (Some 42) None [aliceCalendar] = Value aliceZoom"
proof -
  have t: "truthy_string (Some ''dwd-acme'')" "\<not> truthy_string None" "\<not> truthy_number None"
    "truthy_string (delegatedToId aliceCalendar)" "\<not> truthy_string (delegatedToId aliceZoom)"
    by (simp_all add: aliceCalendar_def aliceZoom_def)
  have r1: "getDwdOrRegularCredential [aliceCalendar, aliceZoom] (Some 42) None = Some aliceZoom"
    by (simp add: getDwdOrRegularCredential_def aliceCalendar_def aliceZoom_def)
  have r2: "getDwdOrRegularCredential [aliceCalendar, aliceZoom] (Some (-1)) (Some ''dwd-acme'') =
      Some aliceCalendar"
    by (simp add: getDwdOrRegularCredential_def aliceCalendar_def aliceZoom_def)
  note neither = credential_lookup_branches[of None None "[aliceCalendar, aliceZoom]" zoomRepository
       "[aliceCalendar]" aliceZoom noCredential None 42]
  note delegated = credential_lookup_branches[of "Some ''dwd-acme''" "Some (-1)"
       "[aliceCalendar, aliceZoom]" zoomRepository "[aliceCalendar]" aliceCalendar noCredential None 42]
  note numeric = credential_lookup_branches[of None "Some 42" "[aliceCalendar, aliceZoom]" zoomRepository
       "[aliceCalendar]" aliceZoom noCredential None 42]
  note repository = credential_lookup_branches[of "Some ''dwd-acme''" "Some 42"
       "[aliceCalendar, aliceZoom]" zoomRepository "[aliceCalendar]" aliceCalendar noCredential None 42]
  have a: "getDwdOrRegularCredential [aliceCalendar, aliceZoom] None None = None"
       "getDwdOrFindRegularCredential zoomRepository None None [aliceCalendar] = Null"
    using neither t by simp_all
  have b: "delegatedToId aliceCalendar = Some ''dwd-acme''"
    using delegated r2 t by simp
  have c: "Some 42 = Some (cred_id aliceZoom)"
    using numeric r1 t by simp
  have d: "getDwdOrFindRegularCredential zoomRepository (Some 42) (Some ''dwd-acme'') [aliceCalendar] =
     getDwdOrFindRegularCredential noCredential None (Some ''dwd-acme'') [aliceCalendar]"
    using repository t by blast
  have e: "getDwdOrFindRegularCredential zoomRepository (Some 42) None [aliceCalendar] = Value aliceZoom"
    using numeric t by (simp add: zoomRepository_def)
  from a b c d e r1 r2 show ?thesis by simp
qed

section \<open>Batch delegation resolver: results\<close>

lemma foldl_set_dom:
  "dom (foldl (\<lambda>m user. m(user_id user \<mapsto> f user)) m0 users) = dom m0 \<union> user_id ` set users"
  by (induction users arbitrary: m0) auto

lemma foldl_set_keep:
  "k \<notin> user_id ` set users \<Longrightarrow> foldl (\<lambda>m user. m(user_id user \<mapsto> f user)) m0 users k = m0 k"
  by (induction users arbitrary: m0) auto

lemma foldl_set_lookup:
  "distinct (map user_id users) \<Longrightarrow> user \<in> set users \<Longrightarrow>
   foldl (\<lambda>m user. m(user_id user \<mapsto> f user)) m0 users (user_id user) = Some (f user)"
proof (induction users arbitrary: m0)
  case Nil
  then show ?case by simp
next
  case (Cons a users)
  show ?case
  proof (cases "user = a")
    case True
    have "user_id a \<notin> user_id ` set users" using Cons.prems(1) by simp
    then have "foldl (\<lambda>m user. m(user_id user \<mapsto> f user)) (m0(user_id a \<mapsto> f a)) users (user_id a) =
               (m0(user_id a \<mapsto> f a)) (user_id a)"
      by (rule foldl_set_keep)
    then show ?thesis unfolding True by (simp only: foldl_Cons fun_upd_same)
  next
    case False
    with Cons show ?thesis by auto
  qed
qed


text \<open>
  C9, as amended. With an organization id that is null or 0 (the values the guard
  \<^verbatim>\<open>!organizationId\<close> lets through) the resolver returns the empty mapping, whatever the user
  list is, the empty list included. With any other organization id it reads the first user of
  the batch: on an empty batch that read fails (the \<open>TypeError\<close> of reading a property of
  \<^verbatim>\<open>undefined\<close>, which no guard of the source handles); on a non-empty batch the resolver
  returns a mapping, looked up for the domain after the first \<^verbatim>\<open>@\<close> of the first user's
  email: empty when no enabled delegation is found, and otherwise defined on exactly the ids of
  the batch, each user (ids pairwise distinct) mapped to the credentials built for that user.
  So the resolver returns whenever the organization id is null or 0 or the batch is non-empty.
\<close>

theorem getDwdCredentialsMapPerUser_total:
  "((organizationId = None \<or> organizationId = Some 0) \<longrightarrow>
      getDwdCredentialsMapPerUser cal meet findDwd organizationId users = Inr Map.empty) \<and>
   (organizationId = Some orgId \<and> orgId \<noteq> 0 \<and> users = [] \<longrightarrow>
      getDwdCredentialsMapPerUser cal meet findDwd organizationId users = Inl TypeError) \<and>
   (organizationId = Some orgId \<and> orgId \<noteq> 0 \<and> users = first # others \<longrightarrow>
      (\<exists>credentialsByUserId.
         getDwdCredentialsMapPerUser cal meet findDwd organizationId users = Inr credentialsByUserId \<and>
         (case findDwd orgId (index1 (split CHR ''@'' (email first))) of
            None \<Rightarrow> credentialsByUserId = Map.empty
          | Some dwd \<Rightarrow>
              if enabled dwd
              then dom credentialsByUserId = user_id ` set users \<and>
                   (distinct (map user_id users) \<longrightarrow>
                      (\<forall>user\<in>set users. credentialsByUserId (user_id user) =
                         Some (buildDwdCredentials cal meet (Some dwd) user)))
              else credentialsByUserId = Map.empty))) \<and>
   (organizationId = None \<or> organizationId = Some 0 \<or> users \<noteq> [] \<longrightarrow>
      (\<exists>credentialsByUserId.
         getDwdCredentialsMapPerUser cal meet findDwd organizationId users = Inr credentialsByUserId))"
proof -
  let ?r = "getDwdCredentialsMapPerUser cal meet findDwd organizationId users"
  have absent: "?r = Inr Map.empty" if "organizationId = None \<or> organizationId = Some 0"
    using that by (auto simp: getDwdCredentialsMapPerUser_def)
  have empty: "?r = Inl TypeError" if "organizationId = Some orgId" "orgId \<noteq> 0" "users = []"
    using that by (simp add: getDwdCredentialsMapPerUser_def)
  have batch: "\<exists>credentialsByUserId. ?r = Inr credentialsByUserId \<and>
         (case findDwd orgId (index1 (split CHR ''@'' (email first))) of
            None \<Rightarrow> credentialsByUserId = Map.empty
          | Some dwd \<Rightarrow>
              if enabled dwd
              then dom credentialsByUserId = user_id ` set users \<and>
                   (distinct (map user_id users) \<longrightarrow>
                      (\<forall>user\<in>set users. credentialsByUserId (user_id user) =
                         Some (buildDwdCredentials cal meet (Some dwd) user)))
              else credentialsByUserId = Map.empty)"
    if h: "organizationId = Some orgId" "orgId \<noteq> 0" "users = first # others"
  proof (cases "findDwd orgId (index1 (split CHR ''@'' (email first)))")
    case None
    with h show ?thesis by (simp add: getDwdCredentialsMapPerUser_def)
  next
    case (Some dwd)
    show ?thesis
    proof (cases "enabled dwd")
      case False
      with Some h show ?thesis by (simp add: getDwdCredentialsMapPerUser_def)
    next
      case True
      let ?m = "foldl (\<lambda>credentialsByUserId user. credentialsByUserId(user_id user \<mapsto>
                   buildDwdCredentials cal meet (Some dwd) user)) Map.empty users"
      have r: "?r = Inr ?m"
        using Some True h by (simp add: getDwdCredentialsMapPerUser_def)
      have d: "dom ?m = user_id ` set users"
        by (simp only: foldl_set_dom dom_empty Un_empty_left)
      have l: "\<forall>user\<in>set users. ?m (user_id user) = Some (buildDwdCredentials cal meet (Some dwd) user)"
        if "distinct (map user_id users)"
        using foldl_set_lookup[OF that] by blast
      from r d l Some True show ?thesis by simp
    qed
  qed
  have total: "\<exists>credentialsByUserId. ?r = Inr credentialsByUserId"
    if "organizationId = None \<or> organizationId = Some 0 \<or> users \<noteq> []"
  proof (cases "organizationId = None \<or> organizationId = Some 0")
    case True
    then show ?thesis using absent by blast
  next
    case False
    then obtain n where n: "organizationId = Some n" "n \<noteq> 0" by (cases organizationId) auto
    from False that obtain u us where "users = u # us" by (cases users) auto
    with n show ?thesis
      by (simp add: getDwdCredentialsMapPerUser_def Let_def split: option.splits)
  qed
  from absent empty batch total show ?thesis by blast
qed


text \<open>
  The claim as stated, for every non-null organization id, fails for the id 0: the guard
  returns the empty mapping before the first user is read, also on an empty batch.
\<close>

theorem getDwdCredentialsMapPerUser_zero_counterexample:
  "getDwdCredentialsMapPerUser googleCalendar googleMeet acmeDelegation (Some 0) ([] :: User list) =
     Inr Map.empty \<and>
   Some (0::int) \<noteq> None"
  by (simp add: getDwdCredentialsMapPerUser_def)

theorem getDwdCredentialsMapPerUser_total_witness:
  "getDwdCredentialsMapPerUser googleCalendar googleMeet acmeDelegation None ([] :: User list) =
     Inr Map.empty \<and>
   getDwdCredentialsMapPerUser googleCalendar googleMeet acmeDelegation (Some 1) ([] :: User list) =
     Inl TypeError \<and>
   index1 (split CHR ''@'' (email alice)) = Some ''acme.com'' \<and>
   getDwdCredentialsMapPerUser googleCalendar googleMeet acmeDelegation (Some 1) [alice] =
     Inr [7 \<mapsto> [aliceCalendar, aliceMeet]]"
proof -
  note absent = getDwdCredentialsMapPerUser_total[of None googleCalendar googleMeet acmeDelegation
      "[] :: User list" 1 alice "[]"]
  note empty = getDwdCredentialsMapPerUser_total[of "Some 1" googleCalendar googleMeet acmeDelegation
      "[] :: User list" 1 alice "[]"]
  note batch = getDwdCredentialsMapPerUser_total[of "Some 1" googleCalendar googleMeet acmeDelegation
      "[alice]" 1 alice "[]"]
  have domain: "index1 (split CHR ''@'' (email alice)) = Some ''acme.com''"
    by (simp add: alice_def)
  have built: "buildDwdCredentials googleCalendar googleMeet (Some acmeDwd) alice =
      [aliceCalendar, aliceMeet]"
    by (simp add: buildDwdCredentials_def buildDwdCalendarCredential_def
        buildDwdConferencingCredential_def buildCommonUserCredential_def withTypeAndAppId_def
        List.map_filter_simps acmeDwd_def alice_def googleCalendar_def googleMeet_def
        aliceCalendar_def aliceMeet_def)
  have found: "acmeDelegation 1 (Some ''acme.com'') = Some acmeDwd" "enabled acmeDwd"
    by (simp_all add: acmeDelegation_def acmeDwd_def)
  from batch obtain m where
    m: "getDwdCredentialsMapPerUser googleCalendar googleMeet acmeDelegation (Some 1) [alice] = Inr m"
       "dom m = user_id ` set [alice]" "m (user_id alice) = Some [aliceCalendar, aliceMeet]"
    unfolding domain found using found(2) built by auto
  have "m = [7 \<mapsto> [aliceCalendar, aliceMeet]]"
  proof
    fix k show "m k = [7 \<mapsto> [aliceCalendar, aliceMeet]] k"
    proof (cases "k = 7")
      case True
      with m(3) show ?thesis by (simp add: alice_def)
    next
      case False
      then have "k \<notin> dom m" unfolding m(2) by (simp add: alice_def)
      with False show ?thesis by (simp add: domIff)
    qed
  qed
  with m(1) absent empty domain show ?thesis by simp
qed

section \<open>Internal notes: results\<close>

text \<open>
  C7. A user who is neither a host nor the owner of the booking's event type gets the
  \<open>HttpError\<close> with status 403 and the table of notes is unchanged. For a host or owner: with
  \<open>internalNote.id = -1\<close> the freeform note (the note's value as text, no preset) is appended to
  the table, and the outcome is the same whatever the preset lookup would return; with any
  other id, when the team has no preset with that id the call fails with \<open>NotFoundError\<close> and
  the table is unchanged, and when it has one the note referring to the preset is appended.
\<close>

theorem handleInternalNote_cases:
  "(\<not> mayAddNote booking userId \<longrightarrow>
      handleInternalNote findFirst internalNote booking userId teamId notes =
        (Inl (HttpError 403
           ''You do not have permission to add an internal note to this booking.''), notes)) \<and>
   (mayAddNote booking userId \<and> note_id internalNote = -1 \<longrightarrow>
      handleInternalNote findFirst internalNote booking userId teamId notes =
        (Inr \<lparr> bookingId = booking_id booking, note_text = note_value internalNote,
                notePresetId = None, createdBy = userId \<rparr>,
         notes @ [\<lparr> bookingId = booking_id booking, note_text = note_value internalNote,
                     notePresetId = None, createdBy = userId \<rparr>]) \<and>
      handleInternalNote findFirst internalNote booking userId teamId notes =
        handleInternalNote otherFindFirst internalNote booking userId teamId notes) \<and>
   (mayAddNote booking userId \<and> note_id internalNote \<noteq> -1 \<and>
    findFirst teamId (note_id internalNote) = None \<longrightarrow>
      handleInternalNote findFirst internalNote booking userId teamId notes =
        (Inl NotFoundError, notes)) \<and>
   (mayAddNote booking userId \<and> note_id internalNote \<noteq> -1 \<and>
    findFirst teamId (note_id internalNote) = Some preset \<longrightarrow>
      handleInternalNote findFirst internalNote booking userId teamId notes =
        (Inr \<lparr> bookingId = booking_id booking, note_text = None,
                notePresetId = Some (note_id internalNote), createdBy = userId \<rparr>,
         notes @ [\<lparr> bookingId = booking_id booking, note_text = None,
                     notePresetId = Some (note_id internalNote), createdBy = userId \<rparr>]))"
proof -
  have g: "mayAddNote booking userId \<longleftrightarrow>
      \<not> (find (\<lambda>host. host_user_id host = userId) (eventType_hosts (eventType booking)) = None \<and>
         \<not> (case eventType_owner (eventType booking) of None \<Rightarrow> False
            | Some eventTypeOwner \<Rightarrow> owner_id eventTypeOwner = Some userId))"
    by (auto simp: mayAddNote_def find_None_iff list_ex_iff split: option.splits)
  show ?thesis
    unfolding g by (simp add: handleInternalNote_def create_def Let_def)
qed


theorem handleInternalNote_cases_witness:
  "\<not> mayAddNote teamBooking 5 \<and> mayAddNote teamBooking 7 \<and> mayAddNote teamBooking 9 \<and>
   handleInternalNote teamPresets \<lparr> note_id = -1, note_name = ''Other'', note_value = Some ''late'' \<rparr>
       teamBooking 5 (Value 1) [] =
     (Inl (HttpError 403
        ''You do not have permission to add an internal note to this booking.''), []) \<and>
   handleInternalNote teamPresets \<lparr> note_id = -1, note_name = ''Other'', note_value = Some ''late'' \<rparr>
       teamBooking 7 (Value 1) [] =
     (Inr \<lparr> bookingId = 100, note_text = Some ''late'', notePresetId = None, createdBy = 7 \<rparr>,
      [\<lparr> bookingId = 100, note_text = Some ''late'', notePresetId = None, createdBy = 7 \<rparr>]) \<and>
   handleInternalNote teamPresets \<lparr> note_id = 4, note_name = ''Gone'', note_value = None \<rparr>
       teamBooking 7 (Value 1) [] = (Inl NotFoundError, []) \<and>
   handleInternalNote teamPresets \<lparr> note_id = 3, note_name = ''No show'', note_value = None \<rparr>
       teamBooking 9 (Value 1) [] =
     (Inr \<lparr> bookingId = 100, note_text = None, notePresetId = Some 3, createdBy = 9 \<rparr>,
      [\<lparr> bookingId = 100, note_text = None, notePresetId = Some 3, createdBy = 9 \<rparr>])"
proof -
  have may: "\<not> mayAddNote teamBooking 5" "mayAddNote teamBooking 7" "mayAddNote teamBooking 9"
    by (simp_all add: mayAddNote_def teamBooking_def)
  have presets: "teamPresets (Value 1) 4 = None" "teamPresets (Value 1) 3 = Some ''No show''"
    by (simp_all add: teamPresets_def)
  have booking: "booking_id teamBooking = 100"
    by (simp add: teamBooking_def)
  note forbidden = handleInternalNote_cases[of teamBooking 5 teamPresets
      "\<lparr> note_id = -1, note_name = ''Other'', note_value = Some ''late'' \<rparr>" "Value 1" "[]"
      noPresets "''No show''"]
  note freeform = handleInternalNote_cases[of teamBooking 7 teamPresets
      "\<lparr> note_id = -1, note_name = ''Other'', note_value = Some ''late'' \<rparr>" "Value 1" "[]"
      noPresets "''No show''"]
  note missing = handleInternalNote_cases[of teamBooking 7 teamPresets
      "\<lparr> note_id = 4, note_name = ''Gone'', note_value = None \<rparr>" "Value 1" "[]"
      noPresets "''No show''"]
  note preset = handleInternalNote_cases[of teamBooking 9 teamPresets
      "\<lparr> note_id = 3, note_name = ''No show'', note_value = None \<rparr>" "Value 1" "[]"
      noPresets "''No show''"]
  from forbidden freeform missing preset may presets booking show ?thesis by simp
qed

section \<open>CSRF verification: results\<close>

lemma takeWhile_dash_split:
  "CHR ''-'' \<in> set token \<Longrightarrow>
   \<exists>rest. token = takeWhile (\<lambda>c. c \<noteq> CHR ''-'') token @ ''-'' @ rest"
proof (induction token)
  case Nil
  then show ?case by simp
next
  case (Cons c token)
  then show ?case by (cases "c = CHR ''-''") auto
qed

lemma takeWhile_dash_prefix:
  "CHR ''-'' \<notin> set salt \<Longrightarrow> takeWhile (\<lambda>c. c \<noteq> CHR ''-'') (salt @ ''-'' @ rest) = salt"
  by (induction salt) auto

lemma verifyToken_iff:
  "verifyToken prims secret token \<longleftrightarrow>
   (\<exists>salt. CHR ''-'' \<notin> set salt \<and> token = salt @ ''-'' @ hash prims (salt @ ''-'' @ secret))"
proof
  assume v: "verifyToken prims secret token"
  then have d: "CHR ''-'' \<in> set token"
    by (auto simp: verifyToken_def split: if_splits)
  let ?salt = "takeWhile (\<lambda>c. c \<noteq> CHR ''-'') token"
  from v d have "token = ?salt @ ''-'' @ hash prims (?salt @ ''-'' @ secret)"
    by (simp add: verifyToken_def tokenize_def Let_def)
  moreover have "CHR ''-'' \<notin> set ?salt"
    by (auto dest: set_takeWhileD)
  ultimately show "\<exists>salt. CHR ''-'' \<notin> set salt \<and> token = salt @ ''-'' @ hash prims (salt @ ''-'' @ secret)"
    by blast
next
  assume "\<exists>salt. CHR ''-'' \<notin> set salt \<and> token = salt @ ''-'' @ hash prims (salt @ ''-'' @ secret)"
  then obtain salt where s: "CHR ''-'' \<notin> set salt"
      "token = salt @ ''-'' @ hash prims (salt @ ''-'' @ secret)" by blast
  have "takeWhile (\<lambda>c. c \<noteq> CHR ''-'') token = salt"
    unfolding s(2) using s(1) by (rule takeWhile_dash_prefix)
  moreover have "CHR ''-'' \<in> set token" unfolding s(2) by simp
  ultimately show "verifyToken prims secret token"
    using s(2) by (simp add: verifyToken_def tokenize_def Let_def)
qed

lemma verify_Inr:
  assumes "verify prims this req res salt = Inr res'"
  shows "\<exists>cookieHeader cookieSecret.
           headers_cookie req = Some cookieHeader \<and>
           parse prims cookieHeader secretCookieName = Some cookieSecret \<and>
           (\<forall>res2 salt2. verify prims this req res2 salt2 =
              Inr (res2\<lparr> setCookie :=
                     Some [serialize tokenCookieName
                             (sign prims (createToken prims cookieSecret salt2) (csrf_secret this))
                             (cookieOptions this)] \<rparr>))"
proof -
  from assms obtain h where h: "headers_cookie req = Some h"
    by (cases "headers_cookie req") (simp_all add: verify_def)
  from assms h obtain t s where ts: "parse prims h tokenCookieName = Some t" "t \<noteq> []"
      "parse prims h secretCookieName = Some s" "s \<noteq> []"
    by (cases "parse prims h tokenCookieName"; cases "parse prims h secretCookieName")
       (auto simp: verify_def Let_def split: if_splits)
  from assms h ts obtain u where u: "unsign prims t (csrf_secret this) = Some u" "u \<noteq> []"
      "verifyToken prims s u"
    by (cases "unsign prims t (csrf_secret this)")
       (auto simp: verify_def Let_def split: if_splits)
  have "verify prims this req res2 salt2 =
      Inr (res2\<lparr> setCookie :=
             Some [serialize tokenCookieName
                     (sign prims (createToken prims s salt2) (csrf_secret this))
                     (cookieOptions this)] \<rparr>)" for res2 :: "'b ServerResponse_scheme" and salt2
    using h ts u by (simp add: verify_def Let_def)
  with h ts(3) show ?thesis by blast
qed


text \<open>
  C6. Verification throws \<open>InvalidCSRFError\<close> (status 403) when the request has no cookie
  header; when the token cookie or the secret cookie is absent (missing or empty); when
  unsigning the token cookie with the server's signing secret fails; and when the unsigned
  token is not a salt, a dash and the hash of that salt with the cookie's secret. In every
  other case it returns, and the response's \<^verbatim>\<open>Set-Cookie\<close> header is the one token cookie
  whose value is the signed token built from the fresh salt and the cookie's secret. The
  comparison of the token with the expected one is an equality here; its running time is not
  modelled.
\<close>

theorem verify_cases:
  "(headers_cookie req = None \<longrightarrow> verify prims this req res salt = Inl InvalidCSRFError) \<and>
   (headers_cookie req = Some cookieHeader \<and>
    (\<not> truthy_string (parse prims cookieHeader tokenCookieName) \<or>
     \<not> truthy_string (parse prims cookieHeader secretCookieName)) \<longrightarrow>
      verify prims this req res salt = Inl InvalidCSRFError) \<and>
   (headers_cookie req = Some cookieHeader \<and>
    parse prims cookieHeader tokenCookieName = Some signedToken \<and> signedToken \<noteq> [] \<and>
    parse prims cookieHeader secretCookieName = Some cookieSecret \<and> cookieSecret \<noteq> [] \<longrightarrow>
      (unsign prims signedToken (csrf_secret this) = None \<longrightarrow>
         verify prims this req res salt = Inl InvalidCSRFError) \<and>
      (unsign prims signedToken (csrf_secret this) = Some unsignedToken \<and>
       \<not> (\<exists>tokenSalt. CHR ''-'' \<notin> set tokenSalt \<and>
            unsignedToken = tokenSalt @ ''-'' @ hash prims (tokenSalt @ ''-'' @ cookieSecret)) \<longrightarrow>
         verify prims this req res salt = Inl InvalidCSRFError) \<and>
      (unsign prims signedToken (csrf_secret this) = Some unsignedToken \<and>
       (\<exists>tokenSalt. CHR ''-'' \<notin> set tokenSalt \<and>
            unsignedToken = tokenSalt @ ''-'' @ hash prims (tokenSalt @ ''-'' @ cookieSecret)) \<longrightarrow>
         verify prims this req res salt =
           Inr (res\<lparr> setCookie :=
                  Some [\<lparr> cookie_name = tokenCookieName,
                          cookie_value = sign prims (salt @ ''-'' @ hash prims (salt @ ''-'' @ cookieSecret))
                                           (csrf_secret this),
                          cookie_options = cookieOptions this \<rparr>] \<rparr>))) \<and>
   statusCode InvalidCSRFError = Some 403"
proof -
  have a: "verify prims this req res salt = Inl InvalidCSRFError" if "headers_cookie req = None"
    using that by (simp add: verify_def)
  have b: "verify prims this req res salt = Inl InvalidCSRFError"
    if "headers_cookie req = Some cookieHeader"
       "\<not> truthy_string (parse prims cookieHeader tokenCookieName) \<or>
        \<not> truthy_string (parse prims cookieHeader secretCookieName)"
    using that by (auto simp: verify_def Let_def)
  have c: "verify prims this req res salt =
      (case unsign prims signedToken (csrf_secret this) of
         None \<Rightarrow> Inl InvalidCSRFError
       | Some unsignedToken \<Rightarrow>
           if unsignedToken = [] then Inl InvalidCSRFError
           else if \<not> verifyToken prims cookieSecret unsignedToken then Inl InvalidCSRFError
           else Inr (res\<lparr> setCookie :=
                  Some [serialize tokenCookieName
                          (sign prims (createToken prims cookieSecret salt) (csrf_secret this))
                          (cookieOptions this)] \<rparr>))"
    if "headers_cookie req = Some cookieHeader"
       "parse prims cookieHeader tokenCookieName = Some signedToken" "signedToken \<noteq> []"
       "parse prims cookieHeader secretCookieName = Some cookieSecret" "cookieSecret \<noteq> []"
    using that by (simp add: verify_def Let_def split: option.splits)
  have empty: "\<not> verifyToken prims cookieSecret []"
    by (simp add: verifyToken_def)
  have d: "verify prims this req res salt = Inl InvalidCSRFError"
    if "headers_cookie req = Some cookieHeader"
       "parse prims cookieHeader tokenCookieName = Some signedToken" "signedToken \<noteq> []"
       "parse prims cookieHeader secretCookieName = Some cookieSecret" "cookieSecret \<noteq> []"
       "unsign prims signedToken (csrf_secret this) = None"
    using c[OF that(1-5)] that(6) by simp
  have e: "verify prims this req res salt = Inl InvalidCSRFError"
    if "headers_cookie req = Some cookieHeader"
       "parse prims cookieHeader tokenCookieName = Some signedToken" "signedToken \<noteq> []"
       "parse prims cookieHeader secretCookieName = Some cookieSecret" "cookieSecret \<noteq> []"
       "unsign prims signedToken (csrf_secret this) = Some unsignedToken"
       "\<not> (\<exists>tokenSalt. CHR ''-'' \<notin> set tokenSalt \<and>
            unsignedToken = tokenSalt @ ''-'' @ hash prims (tokenSalt @ ''-'' @ cookieSecret))"
  proof -
    from that(7) have "\<not> verifyToken prims cookieSecret unsignedToken"
      unfolding verifyToken_iff .
    with c[OF that(1-5)] that(6) show ?thesis by simp
  qed
  have f: "verify prims this req res salt =
           Inr (res\<lparr> setCookie :=
                  Some [\<lparr> cookie_name = tokenCookieName,
                          cookie_value = sign prims (salt @ ''-'' @ hash prims (salt @ ''-'' @ cookieSecret))
                                           (csrf_secret this),
                          cookie_options = cookieOptions this \<rparr>] \<rparr>)"
    if "headers_cookie req = Some cookieHeader"
       "parse prims cookieHeader tokenCookieName = Some signedToken" "signedToken \<noteq> []"
       "parse prims cookieHeader secretCookieName = Some cookieSecret" "cookieSecret \<noteq> []"
       "unsign prims signedToken (csrf_secret this) = Some unsignedToken"
       "\<exists>tokenSalt. CHR ''-'' \<notin> set tokenSalt \<and>
            unsignedToken = tokenSalt @ ''-'' @ hash prims (tokenSalt @ ''-'' @ cookieSecret)"
  proof -
    from that(7) have v: "verifyToken prims cookieSecret unsignedToken"
      unfolding verifyToken_iff .
    with empty have "unsignedToken \<noteq> []" by auto
    with c[OF that(1-5)] that(6) v show ?thesis
      by (simp add: serialize_def createToken_def tokenize_def)
  qed
  have g: "statusCode InvalidCSRFError = Some 403" by simp
  from a b d e f g show ?thesis by blast
qed


theorem verify_cases_witness:
  "verify demoPrimitives demoCSRF \<lparr> headers_cookie = None \<rparr> emptyResponse ''cd'' =
     Inl InvalidCSRFError \<and>
   verify demoPrimitives demoCSRF \<lparr> headers_cookie = Some ''XSRF-TOKEN=ab-D-ab-s3.k'' \<rparr>
       emptyResponse ''cd'' = Inl InvalidCSRFError \<and>
   verify demoPrimitives demoCSRF
       \<lparr> headers_cookie = Some ''csrfSecret=s3;XSRF-TOKEN=ab-D-ab-s3.j'' \<rparr>
       emptyResponse ''cd'' = Inl InvalidCSRFError \<and>
   verify demoPrimitives demoCSRF
       \<lparr> headers_cookie = Some ''csrfSecret=s3;XSRF-TOKEN=ab-D-ab-s4.k'' \<rparr>
       emptyResponse ''cd'' = Inl InvalidCSRFError \<and>
   verify demoPrimitives demoCSRF
       \<lparr> headers_cookie = Some ''csrfSecret=s3;XSRF-TOKEN=ab-D-ab-s3.k'' \<rparr>
       emptyResponse ''cd'' =
     Inr \<lparr> setCookie =
             Some [\<lparr> cookie_name = ''XSRF-TOKEN'', cookie_value = ''cd-D-cd-s3.k'',
                     cookie_options = \<lparr> httpOnly = True, path = ''/'', sameSite = ''lax'',
                                        secure = True \<rparr> \<rparr>] \<rparr>"
proof -
  have prims: "parse demoPrimitives = demoParse" "unsign demoPrimitives = demoUnsign"
      "sign demoPrimitives = (\<lambda>val signingSecret. val @ ''.'' @ signingSecret)"
    by (simp_all add: demoPrimitives_def)
  have inst: "csrf_secret demoCSRF = ''k''"
      "cookieOptions demoCSRF = \<lparr> httpOnly = True, path = ''/'', sameSite = ''lax'', secure = True \<rparr>"
    by (simp_all add: demoCSRF_def newRealCSRF_def)
  have hashes: "hash demoPrimitives ''ab-s3'' = ''D-ab-s3''" "hash demoPrimitives ''cd-s3'' = ''D-cd-s3''"
    by (simp_all add: hash_def demoPrimitives_def replaceAll_def)
  have missing: "\<not> truthy_string (demoParse ''XSRF-TOKEN=ab-D-ab-s3.k'' secretCookieName)"
    by (simp add: demoParse_def secretCookieName_def)
  have cookies:
    "demoParse ''csrfSecret=s3;XSRF-TOKEN=ab-D-ab-s3.j'' tokenCookieName = Some ''ab-D-ab-s3.j''"
    "demoParse ''csrfSecret=s3;XSRF-TOKEN=ab-D-ab-s3.j'' secretCookieName = Some ''s3''"
    "demoParse ''csrfSecret=s3;XSRF-TOKEN=ab-D-ab-s4.k'' tokenCookieName = Some ''ab-D-ab-s4.k''"
    "demoParse ''csrfSecret=s3;XSRF-TOKEN=ab-D-ab-s4.k'' secretCookieName = Some ''s3''"
    "demoParse ''csrfSecret=s3;XSRF-TOKEN=ab-D-ab-s3.k'' tokenCookieName = Some ''ab-D-ab-s3.k''"
    "demoParse ''csrfSecret=s3;XSRF-TOKEN=ab-D-ab-s3.k'' secretCookieName = Some ''s3''"
    by (simp_all add: demoParse_def secretCookieName_def tokenCookieName_def)
  have unsigned: "demoUnsign ''ab-D-ab-s3.j'' ''k'' = None"
      "demoUnsign ''ab-D-ab-s4.k'' ''k'' = Some ''ab-D-ab-s4''"
      "demoUnsign ''ab-D-ab-s3.k'' ''k'' = Some ''ab-D-ab-s3''"
    by (simp_all add: demoUnsign_def)
  have mismatch: "\<not> (\<exists>tokenSalt. CHR ''-'' \<notin> set tokenSalt \<and>
            ''ab-D-ab-s4'' = tokenSalt @ ''-'' @ hash demoPrimitives (tokenSalt @ ''-'' @ ''s3''))"
    unfolding verifyToken_iff[symmetric]
    by (simp add: verifyToken_def tokenize_def hashes)
  have match: "\<exists>tokenSalt. CHR ''-'' \<notin> set tokenSalt \<and>
            ''ab-D-ab-s3'' = tokenSalt @ ''-'' @ hash demoPrimitives (tokenSalt @ ''-'' @ ''s3'')"
    unfolding verifyToken_iff[symmetric]
    by (simp add: verifyToken_def tokenize_def hashes)
  have a: "verify demoPrimitives demoCSRF \<lparr> headers_cookie = None \<rparr> emptyResponse ''cd'' =
     Inl InvalidCSRFError"
    using verify_cases[where req = "\<lparr> headers_cookie = None \<rparr>" and prims = demoPrimitives
        and this = demoCSRF and res = emptyResponse and salt = "''cd''"]
    by simp
  have b: "verify demoPrimitives demoCSRF \<lparr> headers_cookie = Some ''XSRF-TOKEN=ab-D-ab-s3.k'' \<rparr>
       emptyResponse ''cd'' = Inl InvalidCSRFError"
    using verify_cases[where req = "\<lparr> headers_cookie = Some ''XSRF-TOKEN=ab-D-ab-s3.k'' \<rparr>"
        and prims = demoPrimitives and this = demoCSRF and res = emptyResponse and salt = "''cd''"
        and cookieHeader = "''XSRF-TOKEN=ab-D-ab-s3.k''"] missing
    by (simp add: prims)
  have c: "verify demoPrimitives demoCSRF
       \<lparr> headers_cookie = Some ''csrfSecret=s3;XSRF-TOKEN=ab-D-ab-s3.j'' \<rparr>
       emptyResponse ''cd'' = Inl InvalidCSRFError"
    using verify_cases[where req = "\<lparr> headers_cookie = Some ''csrfSecret=s3;XSRF-TOKEN=ab-D-ab-s3.j'' \<rparr>"
        and prims = demoPrimitives and this = demoCSRF and res = emptyResponse and salt = "''cd''"
        and cookieHeader = "''csrfSecret=s3;XSRF-TOKEN=ab-D-ab-s3.j''"
        and signedToken = "''ab-D-ab-s3.j''" and cookieSecret = "''s3''"] cookies unsigned
    by (simp add: prims inst)
  have d: "verify demoPrimitives demoCSRF
       \<lparr> headers_cookie = Some ''csrfSecret=s3;XSRF-TOKEN=ab-D-ab-s4.k'' \<rparr>
       emptyResponse ''cd'' = Inl InvalidCSRFError"
    using verify_cases[where req = "\<lparr> headers_cookie = Some ''csrfSecret=s3;XSRF-TOKEN=ab-D-ab-s4.k'' \<rparr>"
        and prims = demoPrimitives and this = demoCSRF and res = emptyResponse and salt = "''cd''"
        and cookieHeader = "''csrfSecret=s3;XSRF-TOKEN=ab-D-ab-s4.k''"
        and signedToken = "''ab-D-ab-s4.k''" and cookieSecret = "''s3''"
        and unsignedToken = "''ab-D-ab-s4''"] cookies unsigned mismatch
    by (simp add: prims inst)
  have e: "verify demoPrimitives demoCSRF
       \<lparr> headers_cookie = Some ''csrfSecret=s3;XSRF-TOKEN=ab-D-ab-s3.k'' \<rparr>
       emptyResponse ''cd'' =
     Inr (emptyResponse\<lparr> setCookie :=
             Some [\<lparr> cookie_name = tokenCookieName,
                     cookie_value = sign demoPrimitives
                        (''cd'' @ ''-'' @ hash demoPrimitives (''cd'' @ ''-'' @ ''s3'')) (csrf_secret demoCSRF),
                     cookie_options = cookieOptions demoCSRF \<rparr>] \<rparr>)"
    using verify_cases[where req = "\<lparr> headers_cookie = Some ''csrfSecret=s3;XSRF-TOKEN=ab-D-ab-s3.k'' \<rparr>"
        and prims = demoPrimitives and this = demoCSRF and res = emptyResponse and salt = "''cd''"
        and cookieHeader = "''csrfSecret=s3;XSRF-TOKEN=ab-D-ab-s3.k''"
        and signedToken = "''ab-D-ab-s3.k''" and cookieSecret = "''s3''"
        and unsignedToken = "''ab-D-ab-s3''"] cookies unsigned match
    by (simp add: prims inst)
  from a b c d e show ?thesis
    by (simp add: prims inst hashes emptyResponse_def tokenCookieName_def)
qed


text \<open>
  C10. A successful verification changes nothing of the response but the \<^verbatim>\<open>Set-Cookie\<close>
  header, which becomes the single cookie named \<^verbatim>\<open>XSRF-TOKEN\<close>, a name different from the
  secret cookie's; its value is signed from the secret the request's cookie holds. After any
  further run of verifications of the same request every one succeeds, and the header is
  again a single \<^verbatim>\<open>XSRF-TOKEN\<close> cookie, built from the same secret with the last salt:
  no verification writes the secret cookie.
\<close>

theorem verify_rotates_token_only:
  "verify prims this req res salt = Inr res' \<longrightarrow>
     (\<exists>cookieHeader cookieSecret.
        headers_cookie req = Some cookieHeader \<and>
        parse prims cookieHeader secretCookieName = Some cookieSecret \<and>
        res' = res\<lparr> setCookie :=
                 Some [\<lparr> cookie_name = tokenCookieName,
                         cookie_value = sign prims (createToken prims cookieSecret salt)
                                          (csrf_secret this),
                         cookie_options = cookieOptions this \<rparr>] \<rparr> \<and>
        tokenCookieName \<noteq> secretCookieName \<and>
        (\<forall>salts. \<exists>final.
           verifyAll prims this req res' salts = Inr final \<and>
           ServerResponse.more final = ServerResponse.more res \<and>
           setCookie final =
             Some [\<lparr> cookie_name = tokenCookieName,
                     cookie_value = sign prims (createToken prims cookieSecret (last (salt # salts)))
                                      (csrf_secret this),
                     cookie_options = cookieOptions this \<rparr>]))"
proof
  assume ok: "verify prims this req res salt = Inr res'"
  from verify_Inr[OF ok] obtain h s where hs: "headers_cookie req = Some h"
      "parse prims h secretCookieName = Some s"
      and v: "\<And>(res2 :: 'a ServerResponse_scheme) salt2. verify prims this req res2 salt2 =
              Inr (res2\<lparr> setCookie :=
                     Some [serialize tokenCookieName
                             (sign prims (createToken prims s salt2) (csrf_secret this))
                             (cookieOptions this)] \<rparr>)"
    by blast
  let ?cookie = "\<lambda>x. \<lparr> cookie_name = tokenCookieName,
                     cookie_value = sign prims (createToken prims s x) (csrf_secret this),
                     cookie_options = cookieOptions this \<rparr>"
  have first: "res' = res\<lparr> setCookie := Some [?cookie salt] \<rparr>"
    using ok v[of res salt] by (simp add: serialize_def)
  have names: "tokenCookieName \<noteq> secretCookieName"
    by (simp add: tokenCookieName_def secretCookieName_def)
  have run: "\<exists>final. verifyAll prims this req r salts = Inr final \<and>
           ServerResponse.more final = ServerResponse.more r \<and>
           setCookie final = Some [?cookie (last (x # salts))]"
    if "setCookie r = Some [?cookie x]" for salts x and r :: "'a ServerResponse_scheme"
    using that
  proof (induction salts arbitrary: r x)
    case Nil
    then show ?case by simp
  next
    case (Cons y salts)
    let ?r = "r\<lparr> setCookie := Some [?cookie y] \<rparr>"
    have step: "verify prims this req r y = Inr ?r"
      using v[of r y] by (simp add: serialize_def)
    have "setCookie ?r = Some [?cookie y]" by simp
    from Cons.IH[OF this] obtain final where
      "verifyAll prims this req ?r salts = Inr final"
      "ServerResponse.more final = ServerResponse.more ?r"
      "setCookie final = Some [?cookie (last (y # salts))]" by blast
    with step show ?case by simp
  qed
  have "setCookie res' = Some [?cookie salt]" "ServerResponse.more res' = ServerResponse.more res"
    using first by simp_all
  with run[of res' salt] have "\<forall>salts. \<exists>final.
           verifyAll prims this req res' salts = Inr final \<and>
           ServerResponse.more final = ServerResponse.more res \<and>
           setCookie final = Some [?cookie (last (salt # salts))]"
    by metis
  with hs first names show "\<exists>cookieHeader cookieSecret.
        headers_cookie req = Some cookieHeader \<and>
        parse prims cookieHeader secretCookieName = Some cookieSecret \<and>
        res' = res\<lparr> setCookie :=
                 Some [\<lparr> cookie_name = tokenCookieName,
                         cookie_value = sign prims (createToken prims cookieSecret salt)
                                          (csrf_secret this),
                         cookie_options = cookieOptions this \<rparr>] \<rparr> \<and>
        tokenCookieName \<noteq> secretCookieName \<and>
        (\<forall>salts. \<exists>final.
           verifyAll prims this req res' salts = Inr final \<and>
           ServerResponse.more final = ServerResponse.more res \<and>
           setCookie final =
             Some [\<lparr> cookie_name = tokenCookieName,
                     cookie_value = sign prims (createToken prims cookieSecret (last (salt # salts)))
                                      (csrf_secret this),
                     cookie_options = cookieOptions this \<rparr>])"
    by blast
qed


theorem verify_rotates_token_only_witness:
  "verify demoPrimitives demoCSRF
       \<lparr> headers_cookie = Some ''csrfSecret=s3;XSRF-TOKEN=ab-D-ab-s3.k'' \<rparr>
       emptyResponse ''cd'' =
     Inr \<lparr> setCookie =
             Some [\<lparr> cookie_name = ''XSRF-TOKEN'', cookie_value = ''cd-D-cd-s3.k'',
                     cookie_options = \<lparr> httpOnly = True, path = ''/'', sameSite = ''lax'',
                                        secure = True \<rparr> \<rparr>] \<rparr> \<and>
   verifyAll demoPrimitives demoCSRF
       \<lparr> headers_cookie = Some ''csrfSecret=s3;XSRF-TOKEN=ab-D-ab-s3.k'' \<rparr>
       \<lparr> setCookie =
           Some [\<lparr> cookie_name = ''XSRF-TOKEN'', cookie_value = ''cd-D-cd-s3.k'',
                   cookie_options = \<lparr> httpOnly = True, path = ''/'', sameSite = ''lax'',
                                      secure = True \<rparr> \<rparr>] \<rparr>
       [''ef'', ''gh''] =
     Inr \<lparr> setCookie =
             Some [\<lparr> cookie_name = ''XSRF-TOKEN'', cookie_value = ''gh-D-gh-s3.k'',
                     cookie_options = \<lparr> httpOnly = True, path = ''/'', sameSite = ''lax'',
                                        secure = True \<rparr> \<rparr>] \<rparr>"
proof -
  let ?req = "\<lparr> headers_cookie = Some ''csrfSecret=s3;XSRF-TOKEN=ab-D-ab-s3.k'' \<rparr>"
  let ?options = "\<lparr> httpOnly = True, path = ''/'', sameSite = ''lax'', secure = True \<rparr>"
  let ?first = "\<lparr> setCookie =
             Some [\<lparr> cookie_name = ''XSRF-TOKEN'', cookie_value = ''cd-D-cd-s3.k'',
                     cookie_options = ?options \<rparr>] \<rparr>"
  have ok: "verify demoPrimitives demoCSRF ?req emptyResponse ''cd'' = Inr ?first"
    by (simp add: verify_def verifyToken_def createToken_def tokenize_def hash_def replaceAll_def
        serialize_def demoPrimitives_def demoParse_def demoUnsign_def demoCSRF_def newRealCSRF_def
        emptyResponse_def tokenCookieName_def secretCookieName_def)
  have secret: "parse demoPrimitives ''csrfSecret=s3;XSRF-TOKEN=ab-D-ab-s3.k'' secretCookieName = Some ''s3''"
    by (simp add: demoPrimitives_def demoParse_def secretCookieName_def)
  have token: "sign demoPrimitives (createToken demoPrimitives ''s3'' ''gh'') (csrf_secret demoCSRF) =
      ''gh-D-gh-s3.k''" "cookieOptions demoCSRF = ?options" "tokenCookieName = ''XSRF-TOKEN''"
    by (simp_all add: createToken_def tokenize_def hash_def replaceAll_def demoPrimitives_def
        demoCSRF_def newRealCSRF_def tokenCookieName_def)
  from verify_rotates_token_only[where prims = demoPrimitives and this = demoCSRF and req = ?req
      and res = emptyResponse and salt = "''cd''" and res' = ?first] ok
  obtain cookieHeader cookieSecret where
      found: "headers_cookie ?req = Some cookieHeader"
        "parse demoPrimitives cookieHeader secretCookieName = Some cookieSecret"
      and run: "\<forall>salts. \<exists>final.
           verifyAll demoPrimitives demoCSRF ?req ?first salts = Inr final \<and>
           ServerResponse.more final = ServerResponse.more emptyResponse \<and>
           setCookie final =
             Some [\<lparr> cookie_name = tokenCookieName,
                     cookie_value = sign demoPrimitives
                        (createToken demoPrimitives cookieSecret (last (''cd'' # salts)))
                        (csrf_secret demoCSRF),
                     cookie_options = cookieOptions demoCSRF \<rparr>]"
    by blast
  from found(1) have "cookieHeader = ''csrfSecret=s3;XSRF-TOKEN=ab-D-ab-s3.k''" by simp
  with found(2) secret have cs: "cookieSecret = ''s3''" by simp
  from run obtain final where final:
      "verifyAll demoPrimitives demoCSRF ?req ?first [''ef'', ''gh''] = Inr final"
      "setCookie final =
             Some [\<lparr> cookie_name = tokenCookieName,
                     cookie_value = sign demoPrimitives
                        (createToken demoPrimitives cookieSecret (last (''cd'' # [''ef'', ''gh''])))
                        (csrf_secret demoCSRF),
                     cookie_options = cookieOptions demoCSRF \<rparr>]"
    by blast
  from final(2) have "final = \<lparr> setCookie =
             Some [\<lparr> cookie_name = ''XSRF-TOKEN'', cookie_value = ''gh-D-gh-s3.k'',
                     cookie_options = ?options \<rparr>] \<rparr>"
    unfolding cs by (cases final) (simp add: token)
  with final(1) ok show ?thesis by simp
qed


section \<open>User and host enrichment: results\<close>

lemma readUser_append: "r < length store \<Longrightarrow> readUser (store @ new) r = readUser store r"
  by (simp add: readUser_def nth_append)

lemma readHost_append: "r < length store \<Longrightarrow> readHost (store @ new) r = readHost store r"
  by (simp add: readHost_def nth_append)

lemma readUser_valid: "readUser store r = Some u \<Longrightarrow> r < length store"
  by (simp add: readUser_def split: if_splits)

lemma readHost_valid: "readHost store r = Some h \<Longrightarrow> r < length store"
  by (simp add: readHost_def split: if_splits)

lemma readUser_fresh: "readUser (store @ UserObject u # new) (length store) = Some u"
  by (simp add: readUser_def nth_append)

lemma readHost_fresh: "readHost (store @ HostObject h # new) (length store) = Some h"
  by (simp add: readHost_def nth_append)

lemma readUsers_valid:
  "readUsers store rs = Some us \<Longrightarrow> \<forall>r\<in>set rs. \<exists>u. readUser store r = Some u"
  by (induction rs arbitrary: us) (auto split: option.splits)

lemma readHostUsers_valid:
  "readHostUsers store rs = Some us \<Longrightarrow>
   \<forall>r\<in>set rs. \<exists>h u. readHost store r = Some h \<and> readUser store (host_user h) = Some u"
  by (induction rs arbitrary: us) (auto split: option.splits)

lemma mapUsers_spec:
  assumes "\<forall>r\<in>set rs. \<exists>u. readUser store r = Some u"
  shows "\<exists>out new. mapUsers f rs store = Some (out, store @ new) \<and>
           length out = length rs \<and>
           (\<forall>i<length rs. \<exists>user. readUser store (rs ! i) = Some user \<and>
               length store \<le> out ! i \<and>
               readUser (store @ new) (out ! i) = Some (f user))"
  using assms
proof (induction rs arbitrary: store)
  case Nil
  then show ?case by simp
next
  case (Cons r rs)
  from Cons.prems obtain user where user: "readUser store r = Some user" by auto
  let ?store1 = "store @ [UserObject (f user)]"
  have valid1: "\<forall>r\<in>set rs. \<exists>u. readUser ?store1 r = Some u"
  proof
    fix q assume "q \<in> set rs"
    with Cons.prems obtain u where u: "readUser store q = Some u" by auto
    then have "q < length store" by (rule readUser_valid)
    with u show "\<exists>u. readUser ?store1 q = Some u" by (simp add: readUser_append)
  qed
  from Cons.IH[OF valid1] obtain out new where
      run: "mapUsers f rs ?store1 = Some (out, ?store1 @ new)" and
      len: "length out = length rs" and
      each: "\<forall>i<length rs. \<exists>user. readUser ?store1 (rs ! i) = Some user \<and>
               length ?store1 \<le> out ! i \<and>
               readUser (?store1 @ new) (out ! i) = Some (f user)"
    by blast
  let ?new = "UserObject (f user) # new"
  have eq: "?store1 @ new = store @ ?new" by simp
  have a: "mapUsers f (r # rs) store = Some (length store # out, store @ ?new)"
    using user run by (simp add: alloc_def)
  have b: "length (length store # out) = length (r # rs)" using len by simp
  have c: "\<exists>user. readUser store ((r # rs) ! i) = Some user \<and>
               length store \<le> (length store # out) ! i \<and>
               readUser (store @ ?new) ((length store # out) ! i) = Some (f user)"
    if "i < length (r # rs)" for i
  proof (cases i)
    case 0
    with user show ?thesis by (simp add: readUser_fresh)
  next
    case (Suc j)
    with that have j: "j < length rs" by simp
    with each obtain u where u: "readUser ?store1 (rs ! j) = Some u"
        "length ?store1 \<le> out ! j" "readUser (?store1 @ new) (out ! j) = Some (f u)"
      by blast
    from j have "rs ! j \<in> set (r # rs)" by simp
    with Cons.prems obtain u0 where u0: "readUser store (rs ! j) = Some u0" by blast
    then have "rs ! j < length store" by (rule readUser_valid)
    then have "readUser ?store1 (rs ! j) = readUser store (rs ! j)" by (rule readUser_append)
    with u(1) have "readUser store (rs ! j) = Some u" by simp
    with u(2,3) Suc show ?thesis unfolding eq by simp
  qed
  from a b c show ?case by blast
qed

lemma mapHosts_spec:
  assumes "\<forall>r\<in>set rs. \<exists>h u. readHost store r = Some h \<and> readUser store (host_user h) = Some u"
  shows "\<exists>out new. mapHosts f rs store = Some (out, store @ new) \<and>
           length out = length rs \<and>
           (\<forall>i<length rs. \<exists>host user.
               readHost store (rs ! i) = Some host \<and>
               readUser store (host_user host) = Some user \<and>
               length store \<le> out ! i \<and>
               length store \<le> host_user (host\<lparr> host_user := out ! i - 1 \<rparr>) \<and>
               readHost (store @ new) (out ! i) = Some (host\<lparr> host_user := out ! i - 1 \<rparr>) \<and>
               readUser (store @ new) (out ! i - 1) = Some (f user))"
  using assms
proof (induction rs arbitrary: store)
  case Nil
  then show ?case by simp
next
  case (Cons r rs)
  from Cons.prems obtain host user where
      host: "readHost store r = Some host" and user: "readUser store (host_user host) = Some user"
    by auto
  let ?u = "UserObject (f user)"
  let ?h = "HostObject (host\<lparr> host_user := length store \<rparr>)"
  let ?store2 = "store @ [?u, ?h]"
  have valid2: "\<forall>r\<in>set rs. \<exists>h u. readHost ?store2 r = Some h \<and> readUser ?store2 (host_user h) = Some u"
  proof
    fix q assume "q \<in> set rs"
    with Cons.prems obtain h u where hu: "readHost store q = Some h"
        "readUser store (host_user h) = Some u" by auto
    then have "q < length store" "host_user h < length store"
      by (auto dest: readHost_valid readUser_valid)
    with hu show "\<exists>h u. readHost ?store2 q = Some h \<and> readUser ?store2 (host_user h) = Some u"
      by (simp add: readHost_append readUser_append)
  qed
  from Cons.IH[OF valid2] obtain out new where
      run: "mapHosts f rs ?store2 = Some (out, ?store2 @ new)" and
      len: "length out = length rs" and
      each: "\<forall>i<length rs. \<exists>host user.
               readHost ?store2 (rs ! i) = Some host \<and>
               readUser ?store2 (host_user host) = Some user \<and>
               length ?store2 \<le> out ! i \<and>
               length ?store2 \<le> host_user (host\<lparr> host_user := out ! i - 1 \<rparr>) \<and>
               readHost (?store2 @ new) (out ! i) = Some (host\<lparr> host_user := out ! i - 1 \<rparr>) \<and>
               readUser (?store2 @ new) (out ! i - 1) = Some (f user)"
    by blast
  let ?new = "?u # ?h # new"
  have eq: "?store2 @ new = store @ ?new" by simp
  have s1: "store @ [?u] @ [?h] = ?store2" by simp
  have a: "mapHosts f (r # rs) store = Some (Suc (length store) # out, store @ ?new)"
    using host user run by (simp add: alloc_def)
  have b: "length (Suc (length store) # out) = length (r # rs)" using len by simp
  have c: "\<exists>host user.
               readHost store ((r # rs) ! i) = Some host \<and>
               readUser store (host_user host) = Some user \<and>
               length store \<le> (Suc (length store) # out) ! i \<and>
               length store \<le> host_user (host\<lparr> host_user := (Suc (length store) # out) ! i - 1 \<rparr>) \<and>
               readHost (store @ ?new) ((Suc (length store) # out) ! i) =
                 Some (host\<lparr> host_user := (Suc (length store) # out) ! i - 1 \<rparr>) \<and>
               readUser (store @ ?new) ((Suc (length store) # out) ! i - 1) = Some (f user)"
    if "i < length (r # rs)" for i
  proof (cases i)
    case 0
    have "readHost (store @ ?new) (Suc (length store)) = Some (host\<lparr> host_user := length store \<rparr>)"
      using readHost_fresh[of "store @ [?u]" "host\<lparr> host_user := length store \<rparr>" new] by simp
    moreover have "readUser (store @ ?new) (length store) = Some (f user)"
      by (rule readUser_fresh)
    ultimately show ?thesis using 0 host user by simp
  next
    case (Suc j)
    with that have j: "j < length rs" by simp
    with each obtain h u where hu: "readHost ?store2 (rs ! j) = Some h"
        "readUser ?store2 (host_user h) = Some u" "length ?store2 \<le> out ! j"
        "readHost (?store2 @ new) (out ! j) = Some (h\<lparr> host_user := out ! j - 1 \<rparr>)"
        "readUser (?store2 @ new) (out ! j - 1) = Some (f u)"
      by blast
    from j have "rs ! j \<in> set (r # rs)" by simp
    with Cons.prems obtain h0 u0 where h0: "readHost store (rs ! j) = Some h0"
        "readUser store (host_user h0) = Some u0" by blast
    then have lt: "rs ! j < length store" "host_user h0 < length store"
      by (auto dest: readHost_valid readUser_valid)
    from lt(1) have "readHost ?store2 (rs ! j) = readHost store (rs ! j)" by (rule readHost_append)
    with hu(1) h0(1) have hh: "h0 = h" by simp
    from lt(2) have "readUser ?store2 (host_user h0) = readUser store (host_user h0)"
      by (rule readUser_append)
    with hu(2) h0(2) hh have uu: "u0 = u" by simp
    from h0 hh uu hu(3,4,5) Suc show ?thesis unfolding eq by auto
  qed
  from a b c show ?case by blast
qed

lemma enrichUsers_result:
  assumes "enrichUsersWithDwdCredentials cal meet findDwd isDwd norm orgId users store = Inr result"
  shows "\<exists>userObjects dwdCredentialsMap.
           readUsers store users = Some userObjects \<and>
           getDwdCredentialsMapPerUser cal meet findDwd orgId userObjects = Inr dwdCredentialsMap \<and>
           mapUsers (enrichUser isDwd norm dwdCredentialsMap) users store = Some result"
  using assms unfolding enrichUsersWithDwdCredentials_def
  by (auto split: option.splits sum.splits)

lemma enrichHosts_result:
  assumes "enrichHostsWithDwdCredentials cal meet findDwd isDwd norm orgId hosts store = Inr result"
  shows "\<exists>userObjects dwdCredentialsMap.
           readHostUsers store hosts = Some userObjects \<and>
           getDwdCredentialsMapPerUser cal meet findDwd orgId userObjects = Inr dwdCredentialsMap \<and>
           mapHosts (enrichUser isDwd norm dwdCredentialsMap) hosts store = Some result"
  using assms unfolding enrichHostsWithDwdCredentials_def
  by (auto split: option.splits sum.splits)

lemma readUsers_length: "readUsers store rs = Some us \<Longrightarrow> length us = length rs"
  by (induction rs arbitrary: us) (auto split: option.splits)

lemma readHostUsers_length: "readHostUsers store rs = Some us \<Longrightarrow> length us = length rs"
  by (induction rs arbitrary: us) (auto split: option.splits)

lemma resolver_returns:
  "organizationId = None \<or> organizationId = Some 0 \<or> users \<noteq> [] \<Longrightarrow>
   \<exists>m. getDwdCredentialsMapPerUser cal meet findDwd organizationId users = Inr m"
  by (cases organizationId; cases users)
     (auto simp: getDwdCredentialsMapPerUser_def Let_def split: option.splits)


text \<open>
  C8. When the enrichment of a batch of users returns, the store it leaves begins with the
  store it was given, so every object that existed is unchanged, the input records among
  them; it returns as many references as the batch has, each to an object allocated by the
  call, and that object is the input record with \<open>credentials\<close> replaced by the merger of the
  resolver's credentials for the user's id with the record's own credentials: email, id and
  every other field of the record are the input's. For hosts the same holds with two new
  objects per host: the new host object is the input host with only its user reference
  replaced, and the new user object is the host's user with only \<open>credentials\<close> replaced. The
  enrichment returns whenever the references of the batch are objects of the store and the
  organization id is null or 0 or the batch is non-empty.
\<close>

theorem enrichment_frame:
  "(enrichUsersWithDwdCredentials cal meet findDwd isDwd norm orgId users store =
      Inr (enrichedUsers, usersStore) \<longrightarrow>
      (\<exists>userObjects dwdCredentialsMap.
         readUsers store users = Some userObjects \<and>
         getDwdCredentialsMapPerUser cal meet findDwd orgId userObjects = Inr dwdCredentialsMap \<and>
         prefix store usersStore \<and> length enrichedUsers = length users \<and>
         (\<forall>i<length users. \<exists>user.
            readUser store (users ! i) = Some user \<and>
            readUser usersStore (users ! i) = Some user \<and>
            length store \<le> enrichedUsers ! i \<and>
            readUser usersStore (enrichedUsers ! i) =
              Some (user\<lparr> credentials :=
                      buildAllCredentials isDwd norm
                        (case dwdCredentialsMap (user_id user) of None \<Rightarrow> [] | Some dwd \<Rightarrow> dwd)
                        (credentials user) \<rparr>)))) \<and>
   (enrichHostsWithDwdCredentials cal meet findDwd isDwd norm orgId hosts store =
      Inr (enrichedHosts, hostsStore) \<longrightarrow>
      (\<exists>userObjects dwdCredentialsMap.
         readHostUsers store hosts = Some userObjects \<and>
         getDwdCredentialsMapPerUser cal meet findDwd orgId userObjects = Inr dwdCredentialsMap \<and>
         prefix store hostsStore \<and> length enrichedHosts = length hosts \<and>
         (\<forall>i<length hosts. \<exists>host user enrichedUser.
            readHost store (hosts ! i) = Some host \<and>
            readUser store (host_user host) = Some user \<and>
            readHost hostsStore (hosts ! i) = Some host \<and>
            readUser hostsStore (host_user host) = Some user \<and>
            length store \<le> enrichedHosts ! i \<and> length store \<le> enrichedUser \<and>
            readHost hostsStore (enrichedHosts ! i) = Some (host\<lparr> host_user := enrichedUser \<rparr>) \<and>
            readUser hostsStore enrichedUser =
              Some (user\<lparr> credentials :=
                      buildAllCredentials isDwd norm
                        (case dwdCredentialsMap (user_id user) of None \<Rightarrow> [] | Some dwd \<Rightarrow> dwd)
                        (credentials user) \<rparr>)))) \<and>
   (readUsers store users = Some batch \<and> (orgId = None \<or> orgId = Some 0 \<or> users \<noteq> []) \<longrightarrow>
      (\<exists>result. enrichUsersWithDwdCredentials cal meet findDwd isDwd norm orgId users store =
         Inr result)) \<and>
   (readHostUsers store hosts = Some hostBatch \<and> (orgId = None \<or> orgId = Some 0 \<or> hosts \<noteq> []) \<longrightarrow>
      (\<exists>result. enrichHostsWithDwdCredentials cal meet findDwd isDwd norm orgId hosts store =
         Inr result))"
proof -
  have usersPart: "\<exists>userObjects dwdCredentialsMap.
         readUsers store users = Some userObjects \<and>
         getDwdCredentialsMapPerUser cal meet findDwd orgId userObjects = Inr dwdCredentialsMap \<and>
         prefix store usersStore \<and> length enrichedUsers = length users \<and>
         (\<forall>i<length users. \<exists>user.
            readUser store (users ! i) = Some user \<and>
            readUser usersStore (users ! i) = Some user \<and>
            length store \<le> enrichedUsers ! i \<and>
            readUser usersStore (enrichedUsers ! i) =
              Some (user\<lparr> credentials :=
                      buildAllCredentials isDwd norm
                        (case dwdCredentialsMap (user_id user) of None \<Rightarrow> [] | Some dwd \<Rightarrow> dwd)
                        (credentials user) \<rparr>))"
    if r: "enrichUsersWithDwdCredentials cal meet findDwd isDwd norm orgId users store =
      Inr (enrichedUsers, usersStore)"
  proof -
    from enrichUsers_result[OF r] obtain userObjects m where
        read: "readUsers store users = Some userObjects" and
        res: "getDwdCredentialsMapPerUser cal meet findDwd orgId userObjects = Inr m" and
        run: "mapUsers (enrichUser isDwd norm m) users store = Some (enrichedUsers, usersStore)"
      by blast
    from mapUsers_spec[OF readUsers_valid[OF read], of "enrichUser isDwd norm m"] run
    obtain new where new: "usersStore = store @ new" "length enrichedUsers = length users"
        "\<forall>i<length users. \<exists>user. readUser store (users ! i) = Some user \<and>
               length store \<le> enrichedUsers ! i \<and>
               readUser (store @ new) (enrichedUsers ! i) = Some (enrichUser isDwd norm m user)"
      by auto
    have each: "\<exists>user.
            readUser store (users ! i) = Some user \<and>
            readUser usersStore (users ! i) = Some user \<and>
            length store \<le> enrichedUsers ! i \<and>
            readUser usersStore (enrichedUsers ! i) =
              Some (user\<lparr> credentials :=
                      buildAllCredentials isDwd norm
                        (case m (user_id user) of None \<Rightarrow> [] | Some dwd \<Rightarrow> dwd)
                        (credentials user) \<rparr>)" if "i < length users" for i
    proof -
      from new(3) that obtain user where u: "readUser store (users ! i) = Some user"
          "length store \<le> enrichedUsers ! i"
          "readUser (store @ new) (enrichedUsers ! i) = Some (enrichUser isDwd norm m user)"
        by blast
      from u(1) have "users ! i < length store" by (rule readUser_valid)
      then have "readUser (store @ new) (users ! i) = readUser store (users ! i)"
        by (rule readUser_append)
      with u show ?thesis unfolding new(1) by (simp add: enrichUser_def)
    qed
    have "prefix store usersStore" unfolding new(1) by simp
    with read res new(2) each show ?thesis by blast
  qed
  have hostsPart: "\<exists>userObjects dwdCredentialsMap.
         readHostUsers store hosts = Some userObjects \<and>
         getDwdCredentialsMapPerUser cal meet findDwd orgId userObjects = Inr dwdCredentialsMap \<and>
         prefix store hostsStore \<and> length enrichedHosts = length hosts \<and>
         (\<forall>i<length hosts. \<exists>host user enrichedUser.
            readHost store (hosts ! i) = Some host \<and>
            readUser store (host_user host) = Some user \<and>
            readHost hostsStore (hosts ! i) = Some host \<and>
            readUser hostsStore (host_user host) = Some user \<and>
            length store \<le> enrichedHosts ! i \<and> length store \<le> enrichedUser \<and>
            readHost hostsStore (enrichedHosts ! i) = Some (host\<lparr> host_user := enrichedUser \<rparr>) \<and>
            readUser hostsStore enrichedUser =
              Some (user\<lparr> credentials :=
                      buildAllCredentials isDwd norm
                        (case dwdCredentialsMap (user_id user) of None \<Rightarrow> [] | Some dwd \<Rightarrow> dwd)
                        (credentials user) \<rparr>))"
    if r: "enrichHostsWithDwdCredentials cal meet findDwd isDwd norm orgId hosts store =
      Inr (enrichedHosts, hostsStore)"
  proof -
    from enrichHosts_result[OF r] obtain userObjects m where
        read: "readHostUsers store hosts = Some userObjects" and
        res: "getDwdCredentialsMapPerUser cal meet findDwd orgId userObjects = Inr m" and
        run: "mapHosts (enrichUser isDwd norm m) hosts store = Some (enrichedHosts, hostsStore)"
      by blast
    from mapHosts_spec[OF readHostUsers_valid[OF read], of "enrichUser isDwd norm m"] run
    obtain new where new: "hostsStore = store @ new" "length enrichedHosts = length hosts"
        "\<forall>i<length hosts. \<exists>host user.
               readHost store (hosts ! i) = Some host \<and>
               readUser store (host_user host) = Some user \<and>
               length store \<le> enrichedHosts ! i \<and>
               length store \<le> host_user (host\<lparr> host_user := enrichedHosts ! i - 1 \<rparr>) \<and>
               readHost (store @ new) (enrichedHosts ! i) =
                 Some (host\<lparr> host_user := enrichedHosts ! i - 1 \<rparr>) \<and>
               readUser (store @ new) (enrichedHosts ! i - 1) = Some (enrichUser isDwd norm m user)"
      by auto
    have each: "\<exists>host user enrichedUser.
            readHost store (hosts ! i) = Some host \<and>
            readUser store (host_user host) = Some user \<and>
            readHost hostsStore (hosts ! i) = Some host \<and>
            readUser hostsStore (host_user host) = Some user \<and>
            length store \<le> enrichedHosts ! i \<and> length store \<le> enrichedUser \<and>
            readHost hostsStore (enrichedHosts ! i) = Some (host\<lparr> host_user := enrichedUser \<rparr>) \<and>
            readUser hostsStore enrichedUser =
              Some (user\<lparr> credentials :=
                      buildAllCredentials isDwd norm
                        (case m (user_id user) of None \<Rightarrow> [] | Some dwd \<Rightarrow> dwd)
                        (credentials user) \<rparr>)" if "i < length hosts" for i
    proof -
      from new(3) that obtain host user where hu: "readHost store (hosts ! i) = Some host"
          "readUser store (host_user host) = Some user"
          "length store \<le> enrichedHosts ! i"
          "length store \<le> host_user (host\<lparr> host_user := enrichedHosts ! i - 1 \<rparr>)"
          "readHost (store @ new) (enrichedHosts ! i) =
                 Some (host\<lparr> host_user := enrichedHosts ! i - 1 \<rparr>)"
          "readUser (store @ new) (enrichedHosts ! i - 1) = Some (enrichUser isDwd norm m user)"
        by blast
      from hu(1) have "hosts ! i < length store" by (rule readHost_valid)
      then have a: "readHost (store @ new) (hosts ! i) = Some host"
        using hu(1) by (simp add: readHost_append)
      from hu(2) have "host_user host < length store" by (rule readUser_valid)
      then have b: "readUser (store @ new) (host_user host) = Some user"
        using hu(2) by (simp add: readUser_append)
      from hu(4) have c: "length store \<le> enrichedHosts ! i - 1" by simp
      from hu(1,2,3,5,6) a b c show ?thesis unfolding new(1) enrichUser_def by blast
    qed
    have "prefix store hostsStore" unfolding new(1) by simp
    with read res new(2) each show ?thesis by blast
  qed
  have usersTotal: "\<exists>result. enrichUsersWithDwdCredentials cal meet findDwd isDwd norm orgId users store =
         Inr result"
    if read: "readUsers store users = Some batch" and
       pre: "orgId = None \<or> orgId = Some 0 \<or> users \<noteq> []"
  proof -
    from readUsers_length[OF read] pre have "orgId = None \<or> orgId = Some 0 \<or> batch \<noteq> []"
      by auto
    from resolver_returns[OF this] obtain m where
        m: "getDwdCredentialsMapPerUser cal meet findDwd orgId batch = Inr m" by blast
    from mapUsers_spec[OF readUsers_valid[OF read], of "enrichUser isDwd norm m"]
    obtain result where "mapUsers (enrichUser isDwd norm m) users store = Some result" by blast
    with read m show ?thesis by (simp add: enrichUsersWithDwdCredentials_def)
  qed
  have hostsTotal: "\<exists>result. enrichHostsWithDwdCredentials cal meet findDwd isDwd norm orgId hosts store =
         Inr result"
    if read: "readHostUsers store hosts = Some hostBatch" and
       pre: "orgId = None \<or> orgId = Some 0 \<or> hosts \<noteq> []"
  proof -
    from readHostUsers_length[OF read] pre have "orgId = None \<or> orgId = Some 0 \<or> hostBatch \<noteq> []"
      by auto
    from resolver_returns[OF this] obtain m where
        m: "getDwdCredentialsMapPerUser cal meet findDwd orgId hostBatch = Inr m" by blast
    from mapHosts_spec[OF readHostUsers_valid[OF read], of "enrichUser isDwd norm m"]
    obtain result where "mapHosts (enrichUser isDwd norm m) hosts store = Some result" by blast
    with read m show ?thesis by (simp add: enrichHostsWithDwdCredentials_def)
  qed
  from usersPart hostsPart usersTotal hostsTotal show ?thesis by blast
qed

theorem enrichment_frame_witness:
  "enrichUsersWithDwdCredentials googleCalendar googleMeet acmeDelegation flagNegativeId
       clearDelegation (Some 1) [0] aliceStore =
     Inr ([2], aliceStore @ [UserObject aliceEnriched]) \<and>
   prefix aliceStore (aliceStore @ [UserObject aliceEnriched]) \<and>
   enrichHostsWithDwdCredentials googleCalendar googleMeet acmeDelegation flagNegativeId
       clearDelegation (Some 1) [1] aliceStore =
     Inr ([3], aliceStore @ [UserObject aliceEnriched, HostObject \<lparr> host_user = 2 \<rparr>]) \<and>
   prefix aliceStore (aliceStore @ [UserObject aliceEnriched, HostObject \<lparr> host_user = 2 \<rparr>]) \<and>
   readUsers aliceStore [0] = Some [aliceUser] \<and>
   readHostUsers aliceStore [1] = Some [aliceUser]"
proof -
  have users: "enrichUsersWithDwdCredentials googleCalendar googleMeet acmeDelegation flagNegativeId
       clearDelegation (Some 1) [0] aliceStore =
     Inr ([2], aliceStore @ [UserObject aliceEnriched])"
    by code_simp
  have hosts: "enrichHostsWithDwdCredentials googleCalendar googleMeet acmeDelegation flagNegativeId
       clearDelegation (Some 1) [1] aliceStore =
     Inr ([3], aliceStore @ [UserObject aliceEnriched, HostObject \<lparr> host_user = 2 \<rparr>])"
    by code_simp
  have reads: "readUsers aliceStore [0] = Some [aliceUser]"
      "readHostUsers aliceStore [1] = Some [aliceUser]"
    by code_simp+
  note frame = enrichment_frame[where cal = googleCalendar and meet = googleMeet
      and findDwd = acmeDelegation and isDwd = flagNegativeId and norm = clearDelegation
      and orgId = "Some 1" and users = "[0]" and hosts = "[1]" and store = aliceStore
      and enrichedUsers = "[2]" and usersStore = "aliceStore @ [UserObject aliceEnriched]"
      and enrichedHosts = "[3]"
      and hostsStore = "aliceStore @ [UserObject aliceEnriched, HostObject \<lparr> host_user = 2 \<rparr>]"
      and batch = "[aliceUser]" and hostBatch = "[aliceUser]"]
  from frame users have a: "prefix aliceStore (aliceStore @ [UserObject aliceEnriched])"
    by blast
  from frame hosts have b:
    "prefix aliceStore (aliceStore @ [UserObject aliceEnriched, HostObject \<lparr> host_user = 2 \<rparr>])"
    by blast
  from users hosts reads a b show ?thesis by simp
qed


end
